theory Spec2Isabelle
  imports Main "HOL-Library.Multiset"
begin

section \<open>Python values\<close>

text \<open>
  A Python \<open>str\<close> is a sequence of Unicode code points, so it is modelled as a list of
  natural numbers: \<open>len\<close> is \<open>length\<close>, and the Cyrillic header cells of the table count
  one position per letter. \<open>str\<close> embeds an ASCII literal.
\<close>

type_synonym pystr = "nat list"

definition str :: "string \<Rightarrow> pystr" where
  "str s = map of_char s"

text \<open>Decimal rendering of an \<open>int\<close>, as \<open>str(n)\<close> and the engine's cast to text give it.\<close>

fun digits :: "nat \<Rightarrow> pystr" where
  "digits n = (if n < 10 then [48 + n] else digits (n div 10) @ [48 + n mod 10])"

declare digits.simps [simp del]

definition str_int :: "int \<Rightarrow> pystr" where
  "str_int i = (if i < 0 then 45 # digits (nat (- i)) else digits (nat i))"

text \<open>
  The objects that travel from the command line into the statements: \<open>None\<close>, an
  \<open>int\<close> or a \<open>str\<close>. The driver binds them as \<open>NULL\<close>, an integer or a text parameter.
\<close>

datatype val = Null | IntV int | TextV pystr

text \<open>
  The values of a row-mapping handed to the renderer. The repository fills them from
  \<open>TEXT NOT NULL\<close> columns, so they are strings; integers are admitted as well.
\<close>

datatype pyval = PStr pystr | PInt int

type_synonym row_mapping = "string \<rightharpoonup> pyval"

datatype error =
    CatalogError
  | NotNullViolation
  | PrimaryKeyViolation
  | ForeignKeyViolation
  | SequenceError
  | BinderError
  | ConversionError
  | ParameterError
  | AttributeError
  | TypeError
  | SystemExit nat

section \<open>Table renderer: \<open>display_trains\<close>\<close>

text \<open>
  The format specifications \<open>{:<w}\<close>, \<open>{:>w}\<close> and \<open>{:^w}\<close> pad to a minimum width
  and never cut: a text longer than \<open>w\<close> is copied whole. Centring puts the smaller
  half of the padding on the left.
\<close>

datatype align = Left | Right | Centre

definition pad :: "align \<Rightarrow> nat \<Rightarrow> pystr \<Rightarrow> pystr" where
  "pad a w s =
     (let n = w - length s in
      case a of
        Left \<Rightarrow> s @ replicate n 32
      | Right \<Rightarrow> replicate n 32 @ s
      | Centre \<Rightarrow> replicate (n div 2) 32 @ s @ replicate (n - n div 2) 32)"

fun text_of_pyval :: "pyval \<Rightarrow> pystr" where
  "text_of_pyval (PStr s) = s"
| "text_of_pyval (PInt i) = str_int i"

definition format_field :: "align \<Rightarrow> nat \<Rightarrow> pyval \<Rightarrow> pystr" where
  "format_field a w v = pad a w (text_of_pyval v)"

definition dict_get :: "row_mapping \<Rightarrow> string \<Rightarrow> pyval \<Rightarrow> pyval" where
  "dict_get d k dflt = (case d k of None \<Rightarrow> dflt | Some v \<Rightarrow> v)"

definition line :: pystr where
  "line = str ''+-'' @ replicate 4 45 @ str ''-+-'' @ replicate 30 45 @ str ''-+-''
          @ replicate 20 45 @ str ''-+-'' @ replicate 20 45 @ str ''-+''"

text \<open>The four header cells, as code points (numero sign; three Cyrillic captions).\<close>

definition header_cells :: "pystr list" where
  "header_cells =
     [[8470],
      [1055, 1091, 1085, 1082, 1090, 32, 1085, 1072, 1079, 1085, 1072, 1095, 1077, 1085,
       1080, 1103],
      [1053, 1086, 1084, 1077, 1088, 32, 1087, 1086, 1077, 1079, 1076, 1072],
      [1042, 1088, 1077, 1084, 1103, 32, 1086, 1090, 1087, 1088, 1072, 1074, 1083, 1077,
       1085, 1080, 1103]]"

definition header :: pystr where
  "header = str ''| '' @ pad Centre 4 (header_cells ! 0) @ str '' | ''
            @ pad Centre 30 (header_cells ! 1) @ str '' | ''
            @ pad Centre 20 (header_cells ! 2) @ str '' | ''
            @ pad Centre 20 (header_cells ! 3) @ str '' |''"

definition index_field :: "nat \<Rightarrow> pystr" where
  "index_field idx = format_field Right 4 (PInt (int idx))"

definition punkt_field :: "row_mapping \<Rightarrow> pystr" where
  "punkt_field train = format_field Left 30 (dict_get train ''punkt'' (PStr []))"

definition nomer_field :: "row_mapping \<Rightarrow> pystr" where
  "nomer_field train = format_field Left 20 (dict_get train ''nomer'' (PStr []))"

definition time_field :: "row_mapping \<Rightarrow> pystr" where
  "time_field train = format_field Left 19 (dict_get train ''time'' (PStr []))"

definition data_row :: "nat \<Rightarrow> row_mapping \<Rightarrow> pystr" where
  "data_row idx train =
     str ''| '' @ index_field idx @ str '' | '' @ punkt_field train @ str '' | ''
     @ nomer_field train @ str '' |  '' @ time_field train @ str '' |''"

text \<open>The result is the list of strings printed, one per call of \<open>print\<close>.\<close>

definition display_trains :: "row_mapping list \<Rightarrow> pystr list" where
  "display_trains trains =
     (if trains \<noteq> [] then
        [line, header, line]
        @ map (\<lambda>(idx, train). data_row idx train) (enumerate 1 trains)
        @ [line]
      else [])"

section \<open>The embedded database\<close>

text \<open>
  The database file holds two sequences and two tables. Each may be present or absent,
  which is what \<open>IF NOT EXISTS\<close> looks at. The columns, their types and their
  \<open>NOT NULL\<close> declarations are those of the two \<open>CREATE TABLE\<close> statements and are
  built into the row types: a stored field is never \<open>NULL\<close>. The key constraints are
  kept as data in the table, so that an insert checks what the creating statement
  declared.
\<close>

datatype seqname = type_st | train_st

record sequence =
  next_value :: int
  last_value :: "int option"

datatype groups_col = g_train_id | g_train_title

datatype trains_col = t_train_id | t_train_punkt | t_train_nomer | t_train_time

record group_row =
  group_id :: int
  group_title :: pystr

record train_row =
  train_id :: int
  train_punkt :: pystr
  train_nomer :: int
  train_time :: pystr

record groups_table =
  groups_primary_key :: groups_col
  groups_rows :: "group_row list"

record trains_table =
  trains_primary_key :: trains_col
  trains_foreign_keys :: "(trains_col \<times> groups_col) list"
  trains_rows :: "train_row list"

record database =
  sequences :: "seqname \<rightharpoonup> sequence"
  groups :: "groups_table option"
  trains :: "trains_table option"

definition empty_database :: database where
  "empty_database = \<lparr>sequences = Map.empty, groups = None, trains = None\<rparr>"

fun group_field :: "groups_col \<Rightarrow> group_row \<Rightarrow> val" where
  "group_field g_train_id r = IntV (group_id r)"
| "group_field g_train_title r = TextV (group_title r)"

fun train_field :: "trains_col \<Rightarrow> train_row \<Rightarrow> val" where
  "train_field t_train_id r = IntV (train_id r)"
| "train_field t_train_punkt r = TextV (train_punkt r)"
| "train_field t_train_nomer r = IntV (train_nomer r)"
| "train_field t_train_time r = TextV (train_time r)"

text \<open>
  A parameter stored into a \<open>TEXT\<close> column is cast to text: an integer to its decimal
  digits; \<open>NULL\<close> gives no text at all.
\<close>

fun text_of :: "val \<Rightarrow> pystr option" where
  "text_of Null = None"
| "text_of (IntV n) = Some (str_int n)"
| "text_of (TextV s) = Some s"

text \<open>
  An \<open>int\<close> parameter is bound with an integer type of the engine that holds it, given
  here by its bounds: 32 bits, then 64 bits, then 64 bits unsigned, then 128 bits, then
  128 bits unsigned. A number beyond 128 bits cannot be bound, and the statement raises
  before it runs.
\<close>

definition int_type :: "int \<Rightarrow> (int \<times> int) option" where
  "int_type n =
     (if - (2 ^ 31) \<le> n \<and> n < 2 ^ 31 then Some (- (2 ^ 31), 2 ^ 31 - 1)
      else if - (2 ^ 63) \<le> n \<and> n < 2 ^ 63 then Some (- (2 ^ 63), 2 ^ 63 - 1)
      else if 0 \<le> n \<and> n < 2 ^ 64 then Some (0, 2 ^ 64 - 1)
      else if - (2 ^ 127) \<le> n \<and> n < 2 ^ 127 then Some (- (2 ^ 127), 2 ^ 127 - 1)
      else if 0 \<le> n \<and> n < 2 ^ 128 then Some (0, 2 ^ 128 - 1)
      else None)"

fun bindable :: "val \<Rightarrow> bool" where
  "bindable Null = True"
| "bindable (IntV n) = (case int_type n of None \<Rightarrow> False | Some _ \<Rightarrow> True)"
| "bindable (TextV s) = True"

text \<open>
  The cast of a text to an integer, for the texts that train numbers leave in the
  \<open>TEXT\<close> column: an optional sign and decimal digits. Any other text does not
  convert.
\<close>

definition nat_of_digits :: "pystr \<Rightarrow> nat option" where
  "nat_of_digits ds =
     (if ds \<noteq> [] \<and> list_all (\<lambda>d. 48 \<le> d \<and> d \<le> 57) ds
      then Some (foldl (\<lambda>a d. 10 * a + (d - 48)) 0 ds)
      else None)"

definition int_of_str :: "pystr \<Rightarrow> int option" where
  "int_of_str s =
     (case s of
        [] \<Rightarrow> None
      | c # ds \<Rightarrow>
          if c = 45 then map_option (\<lambda>n. - int n) (nat_of_digits ds)
          else if c = 43 then map_option int (nat_of_digits ds)
          else map_option int (nat_of_digits s))"

text \<open>
  The condition \<open>train_title = ?\<close>. With a text parameter the two texts are compared.
  With an \<open>int\<close> parameter the engine casts the column to the integer type of the
  parameter and compares numbers; a title that does not convert, or does not fit that
  type, raises a conversion error. \<open>NULL\<close> equals nothing.
\<close>

fun title_equals :: "val \<Rightarrow> pystr \<Rightarrow> error + bool" where
  "title_equals Null title = Inr False"
| "title_equals (TextV s) title = Inr (title = s)"
| "title_equals (IntV n) title =
     (case int_type n of
        None \<Rightarrow> Inl ParameterError
      | Some (lo, hi) \<Rightarrow>
          (case int_of_str title of
             None \<Rightarrow> Inl ConversionError
           | Some m \<Rightarrow> if lo \<le> m \<and> m \<le> hi then Inr (m = n) else Inl ConversionError))"

text \<open>A scan evaluates the condition on every row and raises when one evaluation raises.\<close>

fun scan :: "('a \<Rightarrow> error + bool) \<Rightarrow> 'a list \<Rightarrow> error + 'a list" where
  "scan P [] = Inr []"
| "scan P (x # xs) =
     (case P x of
        Inl e \<Rightarrow> Inl e
      | Inr b \<Rightarrow>
          (case scan P xs of
             Inl e \<Rightarrow> Inl e
           | Inr ys \<Rightarrow> Inr (if b then x # ys else ys)))"

text \<open>The rows of \<open>groups\<close> that \<open>WHERE train_title = ?\<close> lets through.\<close>

definition where_title :: "val \<Rightarrow> group_row list \<Rightarrow> error + group_row list" where
  "where_title nomer rows =
     (if bindable nomer then scan (\<lambda>r. title_equals nomer (group_title r)) rows
      else Inl ParameterError)"

subsection \<open>Sequences\<close>

definition nextval :: "seqname \<Rightarrow> database \<Rightarrow> (error + int) \<times> database" where
  "nextval s db =
     (case sequences db s of
        None \<Rightarrow> (Inl CatalogError, db)
      | Some q \<Rightarrow>
          (Inr (next_value q),
           db\<lparr>sequences := (sequences db)
                 (s \<mapsto> \<lparr>next_value = next_value q + 1, last_value = Some (next_value q)\<rparr>)\<rparr>))"

definition currval :: "seqname \<Rightarrow> database \<Rightarrow> error + int" where
  "currval s db =
     (case sequences db s of
        None \<Rightarrow> Inl CatalogError
      | Some q \<Rightarrow> (case last_value q of None \<Rightarrow> Inl SequenceError | Some v \<Rightarrow> Inr v))"

text \<open>
  A statement that the engine rejects changes no table. Whether the sequence value it
  drew is handed out again afterwards is a property of the engine that the program
  does not fix; for a statement rejected by a key constraint, or by \<open>NOT NULL\<close> of
  \<open>groups\<close>, the flag \<open>keep\<close> covers both: with \<open>keep\<close> the sequence stays advanced,
  without it the rejected statement leaves no trace. A \<open>NOT NULL\<close> rejection of the
  \<open>trains\<close> insert leaves the sequence advanced.
\<close>

definition rejected :: "bool \<Rightarrow> database \<Rightarrow> database \<Rightarrow> error \<Rightarrow> (error + unit) \<times> database" where
  "rejected keep db db1 e = (Inl e, if keep then db1 else db)"

subsection \<open>Schema initializer: \<open>create_db\<close>\<close>

definition create_sequence :: "seqname \<Rightarrow> int \<Rightarrow> database \<Rightarrow> database" where
  "create_sequence s start db =
     (if sequences db s = None
      then db\<lparr>sequences := (sequences db)(s \<mapsto> \<lparr>next_value = start, last_value = None\<rparr>)\<rparr>
      else db)"

definition create_table_groups :: "groups_col \<Rightarrow> database \<Rightarrow> database" where
  "create_table_groups pk db =
     (if groups db = None
      then db\<lparr>groups := Some \<lparr>groups_primary_key = pk, groups_rows = []\<rparr>\<rparr>
      else db)"

text \<open>
  A foreign key may only reference the primary key of the referenced table. When the
  table is to be created and a foreign key references another column of \<open>groups\<close>,
  the engine refuses the statement.
\<close>

definition references_key :: "database \<Rightarrow> groups_col \<Rightarrow> bool" where
  "references_key db rc =
     (case groups db of None \<Rightarrow> False | Some g \<Rightarrow> groups_primary_key g = rc)"

definition create_table_trains ::
  "trains_col \<Rightarrow> (trains_col \<times> groups_col) list \<Rightarrow> database \<Rightarrow> (error + unit) \<times> database" where
  "create_table_trains pk fks db =
     (if trains db = None
      then
        if list_all (\<lambda>(c, rc). references_key db rc) fks
        then (Inr (),
              db\<lparr>trains := Some \<lparr>trains_primary_key = pk, trains_foreign_keys = fks,
                                    trains_rows = []\<rparr>\<rparr>)
        else (Inl BinderError, db)
      else (Inr (), db))"

text \<open>
  The four statements in the order of the source, each committed by itself. The last one
  declares \<open>FOREIGN KEY(train_id) REFERENCES groups(train_id)\<close>. The file is taken to
  be one that the engine can open.
\<close>

definition create_db :: "database \<Rightarrow> (error + unit) \<times> database" where
  "create_db db =
     (let db1 = create_sequence type_st 1 db;
          db2 = create_sequence train_st 1 db1;
          db3 = create_table_groups g_train_id db2
      in create_table_trains t_train_id [(t_train_id, g_train_id)] db3)"

subsection \<open>Record repository\<close>

text \<open>\<open>SELECT train_id FROM groups WHERE train_title = ?\<close>, then \<open>fetchone\<close>.\<close>

definition select_group_id :: "val \<Rightarrow> database \<Rightarrow> error + int option" where
  "select_group_id nomer db =
     (case groups db of
        None \<Rightarrow> Inl CatalogError
      | Some g \<Rightarrow>
          (case where_title nomer (groups_rows g) of
             Inl e \<Rightarrow> Inl e
           | Inr [] \<Rightarrow> Inr None
           | Inr (r # _) \<Rightarrow> Inr (Some (group_id r))))"

text \<open>\<open>INSERT INTO groups VALUES (nextval('type_st'), ?)\<close>\<close>

definition insert_group :: "bool \<Rightarrow> val \<Rightarrow> database \<Rightarrow> (error + unit) \<times> database" where
  "insert_group keep nomer db =
     (case groups db of
        None \<Rightarrow> (Inl CatalogError, db)
      | Some g \<Rightarrow>
          if bindable nomer then
          (case nextval type_st db of
             (Inl e, _) \<Rightarrow> (Inl e, db)
           | (Inr i, db1) \<Rightarrow>
               (case text_of nomer of
                  None \<Rightarrow> rejected keep db db1 NotNullViolation
                | Some title \<Rightarrow>
                    (let row = \<lparr>group_id = i, group_title = title\<rparr>;
                         pk = groups_primary_key g
                     in if group_field pk row \<in> set (map (group_field pk) (groups_rows g))
                        then rejected keep db db1 PrimaryKeyViolation
                        else (Inr (),
                              db1\<lparr>groups := Some (g\<lparr>groups_rows := groups_rows g @ [row]\<rparr>)\<rparr>))))
          else (Inl ParameterError, db))"

text \<open>The values a foreign key may take: the referenced column of \<open>groups\<close>.\<close>

definition referenced :: "database \<Rightarrow> groups_col \<Rightarrow> val list" where
  "referenced db c =
     (case groups db of None \<Rightarrow> [] | Some g \<Rightarrow> map (group_field c) (groups_rows g))"

text \<open>
  \<open>INSERT INTO trains (train_id, train_punkt, train_nomer, train_time)
   VALUES (nextval('train_st'), ?, ?, ?)\<close>
\<close>

definition insert_train ::
  "bool \<Rightarrow> val \<Rightarrow> int \<Rightarrow> val \<Rightarrow> database \<Rightarrow> (error + unit) \<times> database" where
  "insert_train keep punkt nomer time db =
     (case trains db of
        None \<Rightarrow> (Inl CatalogError, db)
      | Some t \<Rightarrow>
          if bindable punkt \<and> bindable time then
          (case nextval train_st db of
             (Inl e, _) \<Rightarrow> (Inl e, db)
           | (Inr i, db1) \<Rightarrow>
               (case (text_of punkt, text_of time) of
                  (Some p, Some tm) \<Rightarrow>
                    (let row = \<lparr>train_id = i, train_punkt = p, train_nomer = nomer,
                                train_time = tm\<rparr>;
                         pk = trains_primary_key t
                     in if train_field pk row \<in> set (map (train_field pk) (trains_rows t))
                        then rejected keep db db1 PrimaryKeyViolation
                        else if \<not> list_all (\<lambda>(c, rc). train_field c row \<in> set (referenced db rc))
                                     (trains_foreign_keys t)
                        then rejected keep db db1 ForeignKeyViolation
                        else (Inr (),
                              db1\<lparr>trains := Some (t\<lparr>trains_rows := trains_rows t @ [row]\<rparr>)\<rparr>))
                | _ \<Rightarrow> (Inl NotNullViolation, db1)))
          else (Inl ParameterError, db))"

text \<open>
  \<open>add_train\<close>: look the group up by its title; insert it when there is none and read
  its identifier back with \<open>currval\<close>; insert the train. The driver commits every
  statement by itself, so what the earlier statements wrote stays when a later one
  is rejected; the final \<open>commit\<close> has nothing left to do.
\<close>

definition add_train :: "bool \<Rightarrow> database \<Rightarrow> val \<Rightarrow> val \<Rightarrow> val \<Rightarrow> (error + unit) \<times> database" where
  "add_train keep db punkt nomer time =
     (case select_group_id nomer db of
        Inl e \<Rightarrow> (Inl e, db)
      | Inr None \<Rightarrow>
          (case insert_group keep nomer db of
             (Inl e, db1) \<Rightarrow> (Inl e, db1)
           | (Inr _, db1) \<Rightarrow>
               (case currval type_st db1 of
                  Inl e \<Rightarrow> (Inl e, db1)
                | Inr sel \<Rightarrow> insert_train keep punkt sel time db1))
      | Inr (Some row) \<Rightarrow> insert_train keep punkt row time db)"

text \<open>
  The join of both reading statements:
  \<open>SELECT trains.train_punkt, groups.train_title, trains.train_time
   FROM trains INNER JOIN groups ON groups.train_id = trains.train_id\<close>.
  The engine promises no order; the model lists the rows in storage order.
\<close>

definition joined :: "trains_table \<Rightarrow> groups_table \<Rightarrow> (train_row \<times> group_row) list" where
  "joined t g =
     concat (map (\<lambda>tr. map (\<lambda>gr. (tr, gr))
                          (filter (\<lambda>gr. group_id gr = train_id tr) (groups_rows g)))
                 (trains_rows t))"

definition to_mapping :: "train_row \<times> group_row \<Rightarrow> row_mapping" where
  "to_mapping x =
     (case x of (tr, gr) \<Rightarrow>
        [''punkt'' \<mapsto> PStr (train_punkt tr),
         ''nomer'' \<mapsto> PStr (group_title gr),
         ''time'' \<mapsto> PStr (train_time tr)])"

definition select_all :: "database \<Rightarrow> error + row_mapping list" where
  "select_all db =
     (case (trains db, groups db) of
        (Some t, Some g) \<Rightarrow> Inr (map to_mapping (joined t g))
      | _ \<Rightarrow> Inl CatalogError)"

text \<open>
  The same with \<open>WHERE groups.train_title = ?\<close>; the condition is evaluated on the rows
  of \<open>groups\<close>, and the rows it lets through are joined.
\<close>

definition select_by_num :: "database \<Rightarrow> val \<Rightarrow> error + row_mapping list" where
  "select_by_num db nomer =
     (case (trains db, groups db) of
        (Some t, Some g) \<Rightarrow>
          (case where_title nomer (groups_rows g) of
             Inl e \<Rightarrow> Inl e
           | Inr rows \<Rightarrow> Inr (map to_mapping (joined t (g\<lparr>groups_rows := rows\<rparr>))))
      | _ \<Rightarrow> Inl CatalogError)"

section \<open>Command line and dispatch: \<open>main\<close>\<close>

text \<open>
  The namespace that \<open>parse_args\<close> returns maps attribute names to values; reading an
  attribute that is not there raises \<open>AttributeError\<close>.
\<close>

type_synonym namespace = "string \<rightharpoonup> val"

definition getattr :: "namespace \<Rightarrow> string \<Rightarrow> error + val" where
  "getattr args a = (case args a of None \<Rightarrow> Inl AttributeError | Some v \<Rightarrow> Inr v)"

text \<open>
  \<open>type=int\<close> calls \<open>int\<close> on the word: blanks around the number are dropped, a sign
  may come first, and single underscores may stand between digits. Digits are the ASCII
  digits; the decimal digits of other scripts, which \<open>int\<close> reads as well, are not
  covered.
\<close>

definition is_space :: "nat \<Rightarrow> bool" where
  "is_space c =
     (c \<in> set ([9, 10, 11, 12, 13, 28, 29, 30, 31, 32, 133, 160, 5760]
               @ [8192 ..< 8203] @ [8232, 8233, 8239, 8287, 12288]))"

definition strip :: "pystr \<Rightarrow> pystr" where
  "strip s = rev (dropWhile is_space (rev (dropWhile is_space s)))"

fun split_underscores :: "pystr \<Rightarrow> pystr list" where
  "split_underscores [] = [[]]"
| "split_underscores (c # cs) =
     (case split_underscores cs of
        [] \<Rightarrow> [[c]]
      | g # gs \<Rightarrow> if c = 95 then [] # g # gs else (c # g) # gs)"

definition python_digits :: "pystr \<Rightarrow> nat option" where
  "python_digits ds =
     (if list_all (\<lambda>g. nat_of_digits g \<noteq> None) (split_underscores ds)
      then nat_of_digits (concat (split_underscores ds))
      else None)"

definition python_int :: "pystr \<Rightarrow> int option" where
  "python_int s =
     (case strip s of
        [] \<Rightarrow> None
      | c # ds \<Rightarrow>
          if c = 45 then map_option (\<lambda>n. - int n) (python_digits ds)
          else if c = 43 then map_option int (python_digits ds)
          else map_option int (python_digits (c # ds)))"

datatype argtype = AsStr | AsInt

record optspec =
  flags :: "string list"
  dest :: string
  conv :: argtype
  required :: bool
  default_value :: val

definition convert :: "argtype \<Rightarrow> pystr \<Rightarrow> val option" where
  "convert ty w = (case ty of AsStr \<Rightarrow> Some (TextV w) | AsInt \<Rightarrow> map_option IntV (python_int w))"

text \<open>
  \<open>Path.cwd() / "trains.db"\<close>, the default of \<open>--db\<close>; the working directory is a
  parameter of the model.
\<close>

definition default_db :: "pystr \<Rightarrow> pystr" where
  "default_db cwd = (if cwd \<noteq> [] \<and> last cwd = 47 then cwd else cwd @ [47]) @ str ''trains.db''"

definition file_parser :: "pystr \<Rightarrow> optspec list" where
  "file_parser cwd =
     [\<lparr>flags = [''--db''], dest = ''db'', conv = AsStr, required = False,
       default_value = TextV (default_db cwd)\<rparr>]"

definition add_parser :: "pystr \<Rightarrow> optspec list" where
  "add_parser cwd =
     file_parser cwd @
     [\<lparr>flags = [''-p'', ''--punkt''], dest = ''punkt'', conv = AsStr, required = True,
       default_value = Null\<rparr>,
      \<lparr>flags = [''-n'', ''--nomer''], dest = ''nomer'', conv = AsInt, required = False,
       default_value = Null\<rparr>,
      \<lparr>flags = [''-t'', ''--time''], dest = ''time'', conv = AsStr, required = True,
       default_value = Null\<rparr>]"

definition display_parser :: "pystr \<Rightarrow> optspec list" where
  "display_parser cwd = file_parser cwd"

definition select_parser :: "pystr \<Rightarrow> optspec list" where
  "select_parser cwd =
     file_parser cwd @
     [\<lparr>flags = [''-s'', ''--select''], dest = ''select'', conv = AsStr, required = True,
       default_value = Null\<rparr>]"

text \<open>
  The model of the parser reads command lines in which every option is one of its
  declared option strings followed by its value as a separate word. A word that looks
  like an option is no value. Every other command line ends in the usage error
  \<open>SystemExit 2\<close>; the library itself also accepts unambiguous abbreviations and the
  \<open>--opt=value\<close> form, which the model does not cover. The messages that the library
  prints (usage, help, version) are not part of the modelled output.
\<close>

definition is_digit :: "nat \<Rightarrow> bool" where
  "is_digit d = (48 \<le> d \<and> d \<le> 57)"

text \<open>A word such as \<open>-5\<close> or \<open>-1.5\<close> is a negative number and may be a value.\<close>

definition negative_number :: "pystr \<Rightarrow> bool" where
  "negative_number w =
     (case w of
        [] \<Rightarrow> False
      | c # r \<Rightarrow>
          c = 45 \<and>
          (case dropWhile is_digit r of
             [] \<Rightarrow> 0 < length r
           | d # f \<Rightarrow> d = 46 \<and> 0 < length f \<and> list_all is_digit f))"

definition option_like :: "pystr \<Rightarrow> bool" where
  "option_like w = (1 < length w \<and> hd w = 45 \<and> \<not> negative_number w \<and> 32 \<notin> set w)"

fun parse_options ::
  "optspec list \<Rightarrow> pystr list \<Rightarrow> namespace \<Rightarrow> string list \<Rightarrow> error + namespace \<times> string list" where
  "parse_options specs [] ns seen = Inr (ns, seen)"
| "parse_options specs [w] ns seen =
     (if w = str ''-h'' \<or> w = str ''--help'' then Inl (SystemExit 0) else Inl (SystemExit 2))"
| "parse_options specs (w # v # rest) ns seen =
     (if w = str ''-h'' \<or> w = str ''--help'' then Inl (SystemExit 0)
      else
        (case find (\<lambda>sp. w \<in> set (map str (flags sp))) specs of
           None \<Rightarrow> Inl (SystemExit 2)
         | Some sp \<Rightarrow>
             if option_like v then Inl (SystemExit 2)
             else
               (case convert (conv sp) v of
                  None \<Rightarrow> Inl (SystemExit 2)
                | Some x \<Rightarrow> parse_options specs rest (ns(dest sp \<mapsto> x)) (dest sp # seen))))"

definition defaults :: "optspec list \<Rightarrow> namespace" where
  "defaults specs = map_of (map (\<lambda>sp. (dest sp, default_value sp)) specs)"

definition parse_subcommand :: "string \<Rightarrow> optspec list \<Rightarrow> pystr list \<Rightarrow> error + namespace" where
  "parse_subcommand cmd specs ws =
     (case parse_options specs ws ((defaults specs)(''command'' \<mapsto> TextV (str cmd))) [] of
        Inl e \<Rightarrow> Inl e
      | Inr (ns, seen) \<Rightarrow>
          if list_all (\<lambda>sp. if required sp then dest sp \<in> set seen else True) specs then Inr ns
          else Inl (SystemExit 2))"

text \<open>
  The main parser knows \<open>--version\<close> and the three subcommands. The subcommand is not
  required, so the empty command line parses, to a namespace that holds only
  \<open>command = None\<close>: \<open>--db\<close> belongs to the parsers of the subcommands.
\<close>

definition parse_args :: "pystr \<Rightarrow> pystr list \<Rightarrow> error + namespace" where
  "parse_args cwd argv =
     (case argv of
        [] \<Rightarrow> Inr [''command'' \<mapsto> Null]
      | w # ws \<Rightarrow>
          if w = str ''--version'' \<or> w = str ''-h'' \<or> w = str ''--help'' then Inl (SystemExit 0)
          else if w = str ''add'' then parse_subcommand ''add'' (add_parser cwd) ws
          else if w = str ''display'' then parse_subcommand ''display'' (display_parser cwd) ws
          else if w = str ''select'' then parse_subcommand ''select'' (select_parser cwd) ws
          else Inl (SystemExit 2))"

text \<open>
  The files of the machine, by path. \<open>duckdb.connect\<close> opens the file of that path and
  creates an empty database when there is none.
\<close>

type_synonym files = "pystr \<rightharpoonup> database"

definition connect :: "files \<Rightarrow> pystr \<Rightarrow> database" where
  "connect fs path = (case fs path of None \<Rightarrow> empty_database | Some db \<Rightarrow> db)"

text \<open>The three branches of \<open>main\<close> after the schema is in place.\<close>

definition dispatch ::
  "bool \<Rightarrow> namespace \<Rightarrow> database \<Rightarrow> (error + unit) \<times> pystr list \<times> database" where
  "dispatch keep args db =
     (if args ''command'' = Some (TextV (str ''add'')) then
        (case (getattr args ''punkt'', getattr args ''nomer'', getattr args ''time'') of
           (Inr punkt, Inr nomer, Inr time) \<Rightarrow>
             (case add_train keep db punkt nomer time of (r, db1) \<Rightarrow> (r, [], db1))
         | _ \<Rightarrow> (Inl AttributeError, [], db))
      else if args ''command'' = Some (TextV (str ''display'')) then
        (case select_all db of
           Inl e \<Rightarrow> (Inl e, [], db)
         | Inr rows \<Rightarrow> (Inr (), display_trains rows, db))
      else if args ''command'' = Some (TextV (str ''select'')) then
        (case getattr args ''select'' of
           Inl e \<Rightarrow> (Inl e, [], db)
         | Inr sel \<Rightarrow>
             (case select_by_num db sel of
                Inl e \<Rightarrow> (Inl e, [], db)
              | Inr rows \<Rightarrow> (Inr (), display_trains rows, db)))
      else (Inr (), [], db))"

text \<open>
  \<open>main\<close> returns how the run ended, what it printed and the files it leaves. The
  attribute \<open>db\<close> is read before anything touches a file.
\<close>

definition main ::
  "bool \<Rightarrow> pystr \<Rightarrow> pystr list \<Rightarrow> files \<Rightarrow> (error + unit) \<times> pystr list \<times> files" where
  "main keep cwd command_line fs =
     (case parse_args cwd command_line of
        Inl e \<Rightarrow> (Inl e, [], fs)
      | Inr args \<Rightarrow>
          (case getattr args ''db'' of
             Inl e \<Rightarrow> (Inl e, [], fs)
           | Inr Null \<Rightarrow> (Inl TypeError, [], fs)
           | Inr (IntV _) \<Rightarrow> (Inl TypeError, [], fs)
           | Inr (TextV db_path) \<Rightarrow>
               (case create_db (connect fs db_path) of
                  (Inl e, db1) \<Rightarrow> (Inl e, [], fs(db_path \<mapsto> db1))
                | (Inr _, db1) \<Rightarrow>
                    (case dispatch keep args db1 of
                       (r, out, db2) \<Rightarrow> (r, out, fs(db_path \<mapsto> db2))))))"

section \<open>Runs of the program\<close>

text \<open>
  The calls that change a database, with the argument types that \<open>main\<close> passes:
  a destination and a time that are strings, a train number that is an \<open>int\<close> or
  \<open>None\<close>. A run starts from a new file on which the schema initializer has run, as
  \<open>main\<close> runs it before anything else.
\<close>

datatype call = Create_db | Add_train pystr "int option" pystr

fun nomer_param :: "int option \<Rightarrow> val" where
  "nomer_param None = Null"
| "nomer_param (Some n) = IntV n"

fun step :: "bool \<Rightarrow> database \<Rightarrow> call \<Rightarrow> database" where
  "step keep db Create_db = snd (create_db db)"
| "step keep db (Add_train punkt nomer time) =
     snd (add_train keep db (TextV punkt) (nomer_param nomer) (TextV time))"

definition run :: "bool \<Rightarrow> call list \<Rightarrow> database" where
  "run keep calls = foldl (step keep) (snd (create_db empty_database)) calls"

fun supplied :: "call list \<Rightarrow> int set" where
  "supplied [] = {}"
| "supplied (Create_db # cs) = supplied cs"
| "supplied (Add_train punkt None time # cs) = supplied cs"
| "supplied (Add_train punkt (Some n) time # cs) = insert n (supplied cs)"

text \<open>The train numbers of the 32-bit integer type.\<close>

definition int32 :: "int \<Rightarrow> bool" where
  "int32 n = (- (2 ^ 31) \<le> n \<and> n < 2 ^ 31)"

text \<open>Runs in which every train number is of the 32-bit integer type.\<close>

fun int32_calls :: "call list \<Rightarrow> bool" where
  "int32_calls [] = True"
| "int32_calls (Create_db # cs) = int32_calls cs"
| "int32_calls (Add_train punkt None time # cs) = int32_calls cs"
| "int32_calls (Add_train punkt (Some n) time # cs) = (int32 n \<and> int32_calls cs)"

text \<open>
  The prior states on which the schema initializer goes through: the \<open>trains\<close> table
  is there already, or \<open>groups\<close> is absent or has \<open>train_id\<close> as its primary key.
\<close>

definition compatible :: "database \<Rightarrow> bool" where
  "compatible db =
     (if trains db = None
      then (case groups db of None \<Rightarrow> True | Some g \<Rightarrow> groups_primary_key g = g_train_id)
      else True)"

text \<open>A prior state with a \<open>groups\<close> table keyed on \<open>train_title\<close> and no \<open>trains\<close> table.\<close>

definition foreign_db :: database where
  "foreign_db =
     \<lparr>sequences = Map.empty,
      groups = Some \<lparr>groups_primary_key = g_train_title, groups_rows = []\<rparr>,
      trains = None\<rparr>"


text \<open>The rows of the two tables; a table that does not exist has none.\<close>

definition group_rows_of :: "database \<Rightarrow> group_row list" where
  "group_rows_of db = (case groups db of None \<Rightarrow> [] | Some g \<Rightarrow> groups_rows g)"

definition train_rows_of :: "database \<Rightarrow> train_row list" where
  "train_rows_of db = (case trains db of None \<Rightarrow> [] | Some t \<Rightarrow> trains_rows t)"

text \<open>
  The shape of a database that \<open>create_db\<close> has set up: the two sequences with their
  counters, and the two tables with the keys of the source and some rows.
\<close>

definition state_of ::
  "int \<Rightarrow> int option \<Rightarrow> int \<Rightarrow> int option \<Rightarrow> group_row list \<Rightarrow> train_row list \<Rightarrow> database" where
  "state_of ng lg nt lt grows trows =
     \<lparr>sequences = [type_st \<mapsto> \<lparr>next_value = ng, last_value = lg\<rparr>,
                   train_st \<mapsto> \<lparr>next_value = nt, last_value = lt\<rparr>],
      groups = Some \<lparr>groups_primary_key = g_train_id, groups_rows = grows\<rparr>,
      trains = Some \<lparr>trains_primary_key = t_train_id,
                     trains_foreign_keys = [(t_train_id, g_train_id)],
                     trains_rows = trows\<rparr>\<rparr>"

text \<open>
  The invariant of a run: identifiers lie below the counters of their sequences, group
  titles are pairwise different, and every train identifier is a group identifier.
\<close>

definition good :: "database \<Rightarrow> bool" where
  "good db =
     (\<exists>ng lg nt lt grows trows.
        db = state_of ng lg nt lt grows trows \<and>
        (\<forall>r\<in>set grows. group_id r < ng) \<and>
        (\<forall>r\<in>set trows. train_id r < nt) \<and>
        distinct (map group_title grows) \<and>
        (\<forall>r\<in>set trows. train_id r \<in> group_id ` set grows))"

text \<open>The database after \<open>add -p Moscow -n 101 -t 14:30\<close> on a new file, and what
  \<open>select_all\<close> returns for it.\<close>

definition moscow_db :: database where
  "moscow_db =
     state_of 2 (Some 1) 2 (Some 1)
       [\<lparr>group_id = 1, group_title = str ''101''\<rparr>]
       [\<lparr>train_id = 1, train_punkt = str ''Moscow'', train_nomer = 1,
         train_time = str ''14:30''\<rparr>]"

definition moscow_row :: row_mapping where
  "moscow_row = [''punkt'' \<mapsto> PStr (str ''Moscow''), ''nomer'' \<mapsto> PStr (str ''101''),
                 ''time'' \<mapsto> PStr (str ''14:30'')]"

text \<open>The command lines of the example scenario.\<close>

definition add_moscow :: "pystr list" where
  "add_moscow = map str [''add'', ''-p'', ''Moscow'', ''-n'', ''101'', ''-t'', ''14:30'']"

definition add_kazan :: "pystr list" where
  "add_kazan = map str [''add'', ''-p'', ''Kazan'', ''-n'', ''101'', ''-t'', ''09:00'']"

definition display :: "pystr list" where
  "display = [str ''display'']"

definition select_101 :: "pystr list" where
  "select_101 = map str [''select'', ''-s'', ''101'']"

text \<open>The files left by a series of invocations, one command line each.\<close>

fun session :: "bool \<Rightarrow> pystr \<Rightarrow> files \<Rightarrow> pystr list list \<Rightarrow> files" where
  "session keep cwd fs [] = fs"
| "session keep cwd fs (c # cs) = session keep cwd (snd (snd (main keep cwd c fs))) cs"

text \<open>The database after the second \<open>add\<close> of the scenario, which the engine rejects.\<close>

definition kazan_db :: "bool \<Rightarrow> database" where
  "kazan_db keep = (if keep then state_of 2 (Some 1) 3 (Some 2)
       [\<lparr>group_id = 1, group_title = str ''101''\<rparr>]
       [\<lparr>train_id = 1, train_punkt = str ''Moscow'', train_nomer = 1,
         train_time = str ''14:30''\<rparr>] else moscow_db)"

section \<open>The table renderer\<close>



text \<open>
  C9, as the claim states it, fails: a destination of 31 characters is printed whole,
  in a field of 31 characters.
\<close>

theorem punkt_field_not_truncated:
  "punkt_field [''punkt'' \<mapsto> PStr (replicate 31 65)] = replicate 31 65 \<and>
   length (punkt_field [''punkt'' \<mapsto> PStr (replicate 31 65)]) = 31"
  by (simp add: punkt_field_def format_field_def pad_def dict_get_def)

text \<open>
  C9, amended. In every data row the destination field is the destination followed by
  the spaces that fill it up to 30 characters: a destination of at most 30 characters is
  left-aligned in exactly 30 characters, a longer one is printed whole and nothing is
  cut, so the field is as wide as the larger of 30 and the length of the destination.
\<close>

theorem punkt_field_width:
  "data_row idx train =
     str ''| '' @ index_field idx @ str '' | '' @ punkt_field train @ str '' | ''
     @ nomer_field train @ str '' |  '' @ time_field train @ str '' |'' \<and>
   punkt_field train =
     text_of_pyval (dict_get train ''punkt'' (PStr []))
     @ replicate (30 - length (text_of_pyval (dict_get train ''punkt'' (PStr [])))) 32 \<and>
   length (punkt_field train) =
     max 30 (length (text_of_pyval (dict_get train ''punkt'' (PStr []))))"
  by (simp add: data_row_def punkt_field_def format_field_def pad_def)

section \<open>The command line\<close>

text \<open>
  C10. With an empty command line the parser succeeds with a namespace that has no
  attribute \<open>db\<close>, since \<open>--db\<close> is declared by the parent of the three subcommand
  parsers only; \<open>main\<close> ends with \<open>AttributeError\<close>, prints nothing, and no file is
  opened or created: the files are what they were.
\<close>

theorem main_without_subcommand:
  "parse_args cwd [] = Inr [''command'' \<mapsto> Null] \<and>
   getattr [''command'' \<mapsto> Null] ''db'' = Inl AttributeError \<and>
   main keep cwd [] fs = (Inl AttributeError, [], fs) \<and>
   map dest (file_parser cwd) = [''db''] \<and>
   ''db'' \<in> set (map dest (add_parser cwd)) \<and>
   ''db'' \<in> set (map dest (display_parser cwd)) \<and>
   ''db'' \<in> set (map dest (select_parser cwd))"
  by (simp add: parse_args_def getattr_def main_def file_parser_def add_parser_def
      display_parser_def select_parser_def)

section \<open>The schema initializer\<close>

lemma create_sequence_fields:
  "groups (create_sequence s a db) = groups db"
  "trains (create_sequence s a db) = trains db"
  "sequences (create_sequence s a db) s \<noteq> None"
  "s' \<noteq> s \<Longrightarrow> sequences (create_sequence s a db) s' = sequences db s'"
  by (simp_all add: create_sequence_def)

lemma create_table_groups_fields:
  "sequences (create_table_groups pk db) = sequences db"
  "trains (create_table_groups pk db) = trains db"
  "groups (create_table_groups pk db) \<noteq> None"
  by (simp_all add: create_table_groups_def)

lemma create_sequence_present:
  "sequences db s \<noteq> None \<Longrightarrow> create_sequence s a db = db"
  by (cases "sequences db s") (simp_all add: create_sequence_def)

lemma create_table_groups_present:
  "groups db \<noteq> None \<Longrightarrow> create_table_groups pk db = db"
  by (cases "groups db") (simp_all add: create_table_groups_def)

lemma create_table_trains_present:
  "trains db \<noteq> None \<Longrightarrow> create_table_trains pk fks db = (Inr (), db)"
  by (cases "trains db") (simp_all add: create_table_trains_def)

text \<open>The database that the first three statements leave.\<close>

lemma create_db_unfold:
  "create_db db =
     create_table_trains t_train_id [(t_train_id, g_train_id)]
       (create_table_groups g_train_id
          (create_sequence train_st 1 (create_sequence type_st 1 db)))"
  by (simp add: create_db_def Let_def)

lemma references_key_after_groups:
  "references_key (create_table_groups g_train_id
       (create_sequence train_st 1 (create_sequence type_st 1 db))) g_train_id \<longleftrightarrow>
   (case groups db of None \<Rightarrow> True | Some g \<Rightarrow> groups_primary_key g = g_train_id)"
  by (cases "groups db")
    (simp_all add: references_key_def create_table_groups_def create_sequence_fields)

lemma trains_after_groups:
  "trains (create_table_groups g_train_id
       (create_sequence train_st 1 (create_sequence type_st 1 db))) = trains db"
  by (simp add: create_table_groups_fields create_sequence_fields)

lemma create_db_ok_iff: "fst (create_db db) = Inr () \<longleftrightarrow> compatible db"
proof (cases "trains db")
  case None
  then show ?thesis
    by (simp add: create_db_unfold create_table_trains_def trains_after_groups
        references_key_after_groups compatible_def)
next
  case (Some t)
  then show ?thesis
    by (simp add: create_db_unfold create_table_trains_def trains_after_groups compatible_def)
qed

lemma create_db_present:
  assumes "compatible db"
  shows "sequences (snd (create_db db)) type_st \<noteq> None"
    and "sequences (snd (create_db db)) train_st \<noteq> None"
    and "groups (snd (create_db db)) \<noteq> None"
    and "trains (snd (create_db db)) \<noteq> None"
proof -
  let ?db3 = "create_table_groups g_train_id
       (create_sequence train_st 1 (create_sequence type_st 1 db))"
  have k: "trains db = None \<Longrightarrow> references_key ?db3 g_train_id"
    using assms by (simp add: references_key_after_groups compatible_def)
  have s: "snd (create_db db) =
      (if trains db = None
       then ?db3\<lparr>trains := Some \<lparr>trains_primary_key = t_train_id,
                      trains_foreign_keys = [(t_train_id, g_train_id)], trains_rows = []\<rparr>\<rparr>
       else ?db3)"
    using k by (simp add: create_db_unfold create_table_trains_def trains_after_groups)
  have a: "sequences ?db3 type_st \<noteq> None"
    by (simp only: create_table_groups_fields create_sequence_fields seqname.distinct
        not_False_eq_True)
  have b: "sequences ?db3 train_st \<noteq> None"
    by (simp only: create_table_groups_fields create_sequence_fields not_False_eq_True)
  have c: "groups ?db3 \<noteq> None"
    by (rule create_table_groups_fields)
  show "sequences (snd (create_db db)) type_st \<noteq> None"
    using a by (simp add: s)
  show "sequences (snd (create_db db)) train_st \<noteq> None"
    using b by (simp add: s)
  show "groups (snd (create_db db)) \<noteq> None"
    using c by (simp add: s)
  show "trains (snd (create_db db)) \<noteq> None"
    by (simp add: s trains_after_groups)
qed

lemma create_db_fixed:
  assumes "sequences db type_st \<noteq> None" "sequences db train_st \<noteq> None"
    "groups db \<noteq> None" "trains db \<noteq> None"
  shows "create_db db = (Inr (), db)"
proof -
  have "create_sequence type_st 1 db = db"
    using assms(1) by (rule create_sequence_present)
  moreover have "create_sequence train_st 1 db = db"
    using assms(2) by (rule create_sequence_present)
  moreover have "create_table_groups g_train_id db = db"
    using assms(3) by (rule create_table_groups_present)
  moreover have "create_table_trains t_train_id [(t_train_id, g_train_id)] db = (Inr (), db)"
    using assms(4) by (rule create_table_trains_present)
  ultimately show ?thesis
    by (simp only: create_db_unfold)
qed

lemma create_db_twice:
  assumes "compatible db"
  shows "create_db (snd (create_db db)) = (Inr (), snd (create_db db))"
  by (rule create_db_fixed) (rule create_db_present [OF assms])+

lemma create_db_funpow:
  assumes "compatible db"
  shows "((\<lambda>d. snd (create_db d)) ^^ Suc n) db = snd (create_db db)"
  by (induction n) (simp_all add: create_db_twice [OF assms])

lemma create_db_every_call:
  assumes "compatible db"
  shows "fst (create_db (((\<lambda>d. snd (create_db d)) ^^ k) db)) = Inr ()"
proof (cases k)
  case 0
  then show ?thesis
    using assms by (simp add: create_db_ok_iff)
next
  case (Suc n)
  then show ?thesis
    using create_db_funpow [OF assms, of n] by (simp add: create_db_twice [OF assms])
qed

text \<open>
  C7, as the claim states it, fails: on a prior state whose \<open>groups\<close> table is keyed on
  \<open>train_title\<close> and that has no \<open>trains\<close> table, the last statement of \<open>create_db\<close>
  is refused.
\<close>

theorem create_db_refused_on_foreign_groups:
  "fst (create_db foreign_db) = Inl BinderError"
  by (simp add: create_db_unfold create_table_trains_def create_table_groups_def
      create_sequence_def references_key_def foreign_db_def)

text \<open>
  C7, amended. \<open>create_db\<close> goes through exactly on the prior states in which the
  \<open>trains\<close> table is there already, or \<open>groups\<close> is absent or keyed on \<open>train_id\<close>;
  these include the new file and every state the program leaves. On such a state no call
  in a series of calls raises, and \<open>N \<ge> 1\<close> calls leave what one call leaves: both
  sequences and both tables are there.
\<close>

theorem create_db_idempotent:
  "(fst (create_db db) = Inr () \<longleftrightarrow> compatible db) \<and>
   (compatible db \<longrightarrow>
      fst (create_db (((\<lambda>d. snd (create_db d)) ^^ k) db)) = Inr () \<and>
      ((\<lambda>d. snd (create_db d)) ^^ Suc n) db = snd (create_db db) \<and>
      sequences (snd (create_db db)) type_st \<noteq> None \<and>
      sequences (snd (create_db db)) train_st \<noteq> None \<and>
      groups (snd (create_db db)) \<noteq> None \<and>
      trains (snd (create_db db)) \<noteq> None)"
proof (intro conjI impI)
  show "fst (create_db db) = Inr () \<longleftrightarrow> compatible db"
    by (rule create_db_ok_iff)
next
  assume c: "compatible db"
  show "fst (create_db (((\<lambda>d. snd (create_db d)) ^^ k) db)) = Inr ()"
    using c by (rule create_db_every_call)
  show "((\<lambda>d. snd (create_db d)) ^^ Suc n) db = snd (create_db db)"
    using c by (rule create_db_funpow)
  show "sequences (snd (create_db db)) type_st \<noteq> None"
    using c by (rule create_db_present)
  show "sequences (snd (create_db db)) train_st \<noteq> None"
    using c by (rule create_db_present)
  show "groups (snd (create_db db)) \<noteq> None"
    using c by (rule create_db_present)
  show "trains (snd (create_db db)) \<noteq> None"
    using c by (rule create_db_present)
qed

lemma compatible_empty: "compatible empty_database"
  by (simp add: compatible_def empty_database_def)

theorem create_db_idempotent_witness:
  "compatible empty_database \<and>
   fst (create_db empty_database) = Inr () \<and>
   fst (create_db (((\<lambda>d. snd (create_db d)) ^^ 2) empty_database)) = Inr () \<and>
   ((\<lambda>d. snd (create_db d)) ^^ Suc 2) empty_database = snd (create_db empty_database) \<and>
   trains (snd (create_db empty_database)) \<noteq> None"
  using create_db_idempotent [where db = empty_database and k = 2 and n = 2] compatible_empty
  by blast

section \<open>Statements on an initialised database\<close>

text \<open>
  What the statements of \<open>add_train\<close> do to a database of the shape \<open>state_of\<close> whose
  identifiers lie below the sequence counters.
\<close>

lemma seq_map_eq:
  "m type_st = m' type_st \<Longrightarrow> m train_st = m' train_st \<Longrightarrow> (m :: seqname \<rightharpoonup> sequence) = m'"
proof (rule ext)
  fix s assume "m type_st = m' type_st" "m train_st = m' train_st"
  then show "m s = m' s" by (cases s) simp_all
qed

lemma state_of_fields [simp]:
  "sequences (state_of ng lg nt lt grows trows) type_st = Some \<lparr>next_value = ng, last_value = lg\<rparr>"
  "sequences (state_of ng lg nt lt grows trows) train_st = Some \<lparr>next_value = nt, last_value = lt\<rparr>"
  "groups (state_of ng lg nt lt grows trows) =
     Some \<lparr>groups_primary_key = g_train_id, groups_rows = grows\<rparr>"
  "trains (state_of ng lg nt lt grows trows) =
     Some \<lparr>trains_primary_key = t_train_id, trains_foreign_keys = [(t_train_id, g_train_id)],
           trains_rows = trows\<rparr>"
  by (simp_all add: state_of_def)

lemma nextval_type_st:
  "nextval type_st (state_of ng lg nt lt grows trows) =
     (Inr ng, state_of (ng + 1) (Some ng) nt lt grows trows)"
  by (simp add: nextval_def state_of_def seq_map_eq)

lemma nextval_train_st:
  "nextval train_st (state_of ng lg nt lt grows trows) =
     (Inr nt, state_of ng lg (nt + 1) (Some nt) grows trows)"
  by (simp add: nextval_def state_of_def seq_map_eq)

lemma state_of_set_groups:
  "state_of ng lg nt lt grows trows
     \<lparr>groups := Some \<lparr>groups_primary_key = g_train_id, groups_rows = grows'\<rparr>\<rparr> =
   state_of ng lg nt lt grows' trows"
  by (simp add: state_of_def)

lemma state_of_set_trains:
  "state_of ng lg nt lt grows trows
     \<lparr>trains := Some \<lparr>trains_primary_key = t_train_id,
                      trains_foreign_keys = [(t_train_id, g_train_id)],
                      trains_rows = trows'\<rparr>\<rparr> =
   state_of ng lg nt lt grows trows'"
  by (simp add: state_of_def)

lemma id_fresh:
  "\<forall>r\<in>set rows. f r < (n::int) \<Longrightarrow> n \<notin> f ` set rows"
  by auto

lemma insert_group_state:
  assumes "\<forall>r\<in>set grows. group_id r < ng" and "bindable n"
  shows "insert_group keep n (state_of ng lg nt lt grows trows) =
     (case text_of n of
        None \<Rightarrow> (Inl NotNullViolation,
                 if keep then state_of (ng + 1) (Some ng) nt lt grows trows
                 else state_of ng lg nt lt grows trows)
      | Some s \<Rightarrow> (Inr (), state_of (ng + 1) (Some ng) nt lt
                             (grows @ [\<lparr>group_id = ng, group_title = s\<rparr>]) trows))"
proof -
  have "ng \<notin> group_id ` set grows"
    using assms(1) by (rule id_fresh)
  then have "IntV ng \<notin> (\<lambda>r. IntV (group_id r)) ` set grows"
    by auto
  then show ?thesis
    using assms(2)
    by (simp add: insert_group_def nextval_type_st rejected_def state_of_set_groups
        split: option.split)
qed

lemma insert_train_state:
  assumes "\<forall>r\<in>set trows. train_id r < nt"
  shows "insert_train keep (TextV p) gid (TextV t) (state_of ng lg nt lt grows trows) =
     (if nt \<in> group_id ` set grows
      then (Inr (), state_of ng lg (nt + 1) (Some nt) grows
                     (trows @ [\<lparr>train_id = nt, train_punkt = p, train_nomer = gid,
                                 train_time = t\<rparr>]))
      else (Inl ForeignKeyViolation,
            if keep then state_of ng lg (nt + 1) (Some nt) grows trows
            else state_of ng lg nt lt grows trows))"
proof -
  have "nt \<notin> train_id ` set trows"
    using assms by (rule id_fresh)
  then have a: "IntV nt \<notin> (\<lambda>r. IntV (train_id r)) ` set trows"
    by auto
  have b: "IntV nt \<in> (\<lambda>r. IntV (group_id r)) ` set grows \<longleftrightarrow> nt \<in> group_id ` set grows"
    by auto
  show ?thesis
    using a b
    by (simp add: insert_train_def nextval_train_st rejected_def state_of_set_trains
        referenced_def)
qed

section \<open>The condition on the title\<close>

lemma scan_filter: "scan (\<lambda>x. Inr (Q x)) xs = Inr (filter Q xs)"
  by (induction xs) simp_all

lemma scan_cong:
  "\<forall>x\<in>set xs. P x = P' x \<Longrightarrow> scan P xs = scan P' xs"
  by (induction xs) (auto split: sum.splits)

lemma scan_subset: "scan P xs = Inr ys \<Longrightarrow> set ys \<subseteq> set xs"
proof (induction xs arbitrary: ys)
  case Nil
  then show ?case by simp
next
  case (Cons x xs)
  from Cons.prems obtain b zs where "P x = Inr b" "scan P xs = Inr zs"
    "ys = (if b then x # zs else zs)"
    by (auto split: sum.splits)
  then show ?case
    using Cons.IH [of zs] by auto
qed

lemma scan_none: "scan P xs = Inr [] \<Longrightarrow> x \<in> set xs \<Longrightarrow> P x = Inr False"
proof (induction xs)
  case Nil
  then show ?case by simp
next
  case (Cons y xs)
  from Cons.prems(1) obtain b zs where b: "P y = Inr b" "scan P xs = Inr zs"
    "[] = (if b then y # zs else zs)"
    by (auto split: sum.splits)
  then have "\<not> b" "zs = []"
    by (auto split: if_splits)
  then show ?case
    using Cons b by auto
qed

section \<open>Decimal text of a train number\<close>

text \<open>Reading the digits back gives the number, so different numbers have different texts.\<close>

lemma digits_ok: "digits n \<noteq> [] \<and> list_all (\<lambda>d. 48 \<le> d \<and> d \<le> 57) (digits n)"
proof (induction n rule: digits.induct)
  case (1 n)
  show ?case
  proof (cases "n < 10")
    case True
    then show ?thesis by (simp add: digits.simps [of n])
  next
    case False
    then have "list_all (\<lambda>d. 48 \<le> d \<and> d \<le> 57) (digits (n div 10))"
      using 1 by simp
    moreover have "n mod 10 < 10" by simp
    ultimately show ?thesis
      using False by (simp add: digits.simps [of n])
  qed
qed

lemma digits_value: "foldl (\<lambda>a d. 10 * a + (d - 48)) 0 (digits n) = n"
proof (induction n rule: digits.induct)
  case (1 n)
  show ?case
  proof (cases "n < 10")
    case True
    then show ?thesis by (simp add: digits.simps [of n])
  next
    case False
    then have "foldl (\<lambda>a d. 10 * a + (d - 48)) 0 (digits (n div 10)) = n div 10"
      using 1 by simp
    then show ?thesis
      using False by (simp add: digits.simps [of n])
  qed
qed

lemma nat_of_digits_digits: "nat_of_digits (digits n) = Some n"
  using digits_ok [of n] by (simp add: nat_of_digits_def digits_value)

lemma int_of_str_str_int: "int_of_str (str_int i) = Some i"
proof (cases "i < 0")
  case True
  then show ?thesis
    by (simp add: str_int_def int_of_str_def nat_of_digits_digits)
next
  case False
  obtain c ds where cd: "digits (nat i) = c # ds"
    using digits_ok [of "nat i"] by (cases "digits (nat i)") auto
  then have "48 \<le> c"
    using digits_ok [of "nat i"] by simp
  then have "c \<noteq> 45" "c \<noteq> 43"
    by simp_all
  moreover have "nat_of_digits (c # ds) = Some (nat i)"
    using nat_of_digits_digits [of "nat i"] cd by simp
  ultimately show ?thesis
    using False cd by (simp add: str_int_def int_of_str_def)
qed

lemma inj_str_int: "inj str_int"
proof (rule injI)
  fix i j assume "str_int i = str_int j"
  then have "int_of_str (str_int i) = int_of_str (str_int j)"
    by simp
  then show "i = j"
    by (simp add: int_of_str_str_int)
qed

lemma str_int_eq: "str_int i = str_int j \<longleftrightarrow> i = j"
  using inj_str_int by (auto dest: injD)

lemma int_type_int32: "int32 n \<Longrightarrow> int_type n = Some (- (2 ^ 31), 2 ^ 31 - 1)"
  by (simp add: int32_def int_type_def)

text \<open>
  Between numbers of the 32-bit type the condition is the equality of the numbers, that
  is, of their texts.
\<close>

lemma title_equals_int32:
  assumes "int32 n" "int32 m"
  shows "title_equals (IntV n) (str_int m) = Inr (str_int m = str_int n)"
proof -
  have "- (2 ^ 31) \<le> m \<and> m \<le> 2 ^ 31 - 1"
    using assms(2) by (simp add: int32_def)
  then show ?thesis
    using assms(1) by (simp add: int_type_int32 int_of_str_str_int str_int_eq)
qed

text \<open>A condition that is false for a title: the title is not the parameter's text.\<close>

lemma title_equals_false:
  assumes "title_equals nomer title = Inr False"
  shows "text_of nomer \<noteq> Some title"
proof (cases nomer)
  case Null
  then show ?thesis by simp
next
  case (TextV s)
  then show ?thesis using assms by auto
next
  case (IntV n)
  show ?thesis
  proof
    assume "text_of nomer = Some title"
    then have t: "title = str_int n"
      using IntV by simp
    have "title_equals (IntV n) (str_int n) \<noteq> Inr False"
      by (auto simp: int_of_str_str_int split: option.splits if_splits)
    then show False
      using assms IntV t by simp
  qed
qed

lemma where_title_bindable: "where_title nomer rows = Inr ys \<Longrightarrow> bindable nomer"
  by (auto simp: where_title_def split: if_splits)

lemma where_title_none:
  assumes "where_title nomer rows = Inr []" and "text_of nomer = Some s"
  shows "s \<notin> group_title ` set rows"
proof
  assume "s \<in> group_title ` set rows"
  then obtain r where r: "r \<in> set rows" "group_title r = s"
    by auto
  have "scan (\<lambda>r. title_equals nomer (group_title r)) rows = Inr []"
    using assms(1) by (auto simp: where_title_def split: if_splits)
  then have "title_equals nomer (group_title r) = Inr False"
    using r(1) by (rule scan_none)
  then have "text_of nomer \<noteq> Some s"
    using r(2) title_equals_false by blast
  then show False
    using assms(2) by simp
qed

lemma where_title_subset: "where_title nomer rows = Inr ys \<Longrightarrow> set ys \<subseteq> set rows"
  by (auto simp: where_title_def split: if_splits dest: scan_subset)

lemma where_title_text:
  "where_title (TextV s) rows = Inr (filter (\<lambda>r. group_title r = s) rows)"
  by (simp add: where_title_def scan_filter)

lemma where_title_null: "where_title Null rows = Inr []"
  by (simp add: where_title_def scan_filter)

lemma where_title_int32:
  assumes "int32 n" and "\<forall>r\<in>set rows. \<exists>m. int32 m \<and> group_title r = str_int m"
  shows "where_title (IntV n) rows = Inr (filter (\<lambda>r. group_title r = str_int n) rows)"
proof -
  have "\<forall>r\<in>set rows. title_equals (IntV n) (group_title r) =
          Inr (group_title r = str_int n)"
  proof
    fix r assume "r \<in> set rows"
    then obtain m where "int32 m" "group_title r = str_int m"
      using assms(2) by blast
    then show "title_equals (IntV n) (group_title r) = Inr (group_title r = str_int n)"
      using title_equals_int32 [OF assms(1)] by simp
  qed
  then have "scan (\<lambda>r. title_equals (IntV n) (group_title r)) rows =
             scan (\<lambda>r. Inr (group_title r = str_int n)) rows"
    by (rule scan_cong)
  then show ?thesis
    using assms(1) by (simp add: where_title_def scan_filter int_type_int32)
qed

section \<open>\<open>add_train\<close> on an initialised database\<close>

lemma select_group_id_state:
  "select_group_id n (state_of ng lg nt lt grows trows) =
     (case where_title n grows of
        Inl e \<Rightarrow> Inl e
      | Inr [] \<Rightarrow> Inr None
      | Inr (r # _) \<Rightarrow> Inr (Some (group_id r)))"
  by (simp add: select_group_id_def)

lemma add_train_state:
  assumes "\<forall>r\<in>set grows. group_id r < ng"
  shows "add_train keep (state_of ng lg nt lt grows trows) (TextV p) n (TextV t) =
     (case where_title n grows of
        Inl e \<Rightarrow> (Inl e, state_of ng lg nt lt grows trows)
      | Inr [] \<Rightarrow>
          (case text_of n of
             None \<Rightarrow> (Inl NotNullViolation,
                      if keep then state_of (ng + 1) (Some ng) nt lt grows trows
                      else state_of ng lg nt lt grows trows)
           | Some s \<Rightarrow>
               insert_train keep (TextV p) ng (TextV t)
                 (state_of (ng + 1) (Some ng) nt lt
                    (grows @ [\<lparr>group_id = ng, group_title = s\<rparr>]) trows))
      | Inr (r # _) \<Rightarrow> insert_train keep (TextV p) (group_id r) (TextV t)
                        (state_of ng lg nt lt grows trows))"
proof (cases "where_title n grows")
  case (Inl e)
  then show ?thesis
    by (simp add: add_train_def select_group_id_state)
next
  case (Inr ys)
  then have b: "bindable n"
    by (rule where_title_bindable)
  show ?thesis
  proof (cases ys)
    case Nil
    then show ?thesis
      using Inr
      by (simp add: add_train_def select_group_id_state insert_group_state [OF assms b]
          currval_def split: option.split)
  next
    case (Cons r rs)
    then show ?thesis
      using Inr by (simp add: add_train_def select_group_id_state)
  qed
qed

lemma rows_of_state [simp]:
  "group_rows_of (state_of ng lg nt lt grows trows) = grows"
  "train_rows_of (state_of ng lg nt lt grows trows) = trows"
  by (simp_all add: group_rows_of_def train_rows_of_def)

lemma goodI:
  assumes "\<forall>r\<in>set grows. group_id r < ng" "\<forall>r\<in>set trows. train_id r < nt"
    "distinct (map group_title grows)" "\<forall>r\<in>set trows. train_id r \<in> group_id ` set grows"
  shows "good (state_of ng lg nt lt grows trows)"
  unfolding good_def using assms by blast

lemma good_insert_train:
  assumes "\<forall>r\<in>set grows. group_id r < ng" "\<forall>r\<in>set trows. train_id r < nt"
    "distinct (map group_title grows)" "\<forall>r\<in>set trows. train_id r \<in> group_id ` set grows"
  shows "good (snd (insert_train keep (TextV p) gid (TextV t) (state_of ng lg nt lt grows trows)))"
proof (cases "nt \<in> group_id ` set grows")
  case True
  have "good (state_of ng lg (nt + 1) (Some nt) grows
          (trows @ [\<lparr>train_id = nt, train_punkt = p, train_nomer = gid, train_time = t\<rparr>]))"
  proof (rule goodI)
    show "\<forall>r\<in>set (trows @ [\<lparr>train_id = nt, train_punkt = p, train_nomer = gid,
            train_time = t\<rparr>]). train_id r < nt + 1"
      using assms(2) by auto
    show "\<forall>r\<in>set (trows @ [\<lparr>train_id = nt, train_punkt = p, train_nomer = gid,
            train_time = t\<rparr>]). train_id r \<in> group_id ` set grows"
      using assms(4) True by auto
  qed (use assms in simp_all)
  then show ?thesis
    using True by (simp add: insert_train_state [OF assms(2)])
next
  case False
  have "good (state_of ng lg (nt + 1) (Some nt) grows trows)"
  proof (rule goodI)
    show "\<forall>r\<in>set trows. train_id r < nt + 1"
      using assms(2) by auto
  qed (use assms in simp_all)
  moreover have "good (state_of ng lg nt lt grows trows)"
    using assms by (rule goodI)
  ultimately show ?thesis
    using False by (simp add: insert_train_state [OF assms(2)])
qed

lemma group_rows_insert_train:
  assumes "\<forall>r\<in>set trows. train_id r < nt"
  shows "group_rows_of (snd (insert_train keep (TextV p) gid (TextV t)
           (state_of ng lg nt lt grows trows))) = grows"
  by (simp add: insert_train_state [OF assms])

section \<open>Runs\<close>

lemma create_db_empty:
  "create_db empty_database = (Inr (), state_of 1 None 1 None [] [])"
  by (simp add: create_db_unfold empty_database_def state_of_def create_sequence_def
      create_table_groups_def create_table_trains_def references_key_def seq_map_eq)

lemma good_initial: "good (snd (create_db empty_database))"
  unfolding create_db_empty snd_conv by (rule goodI) simp_all

lemma good_create_db: "good db \<Longrightarrow> create_db db = (Inr (), db)"
  by (rule create_db_fixed) (auto simp: good_def)

text \<open>
  \<open>add_train\<close> keeps the invariant, and it leaves the rows of \<open>groups\<close> as they are or
  adds one row, whose title is the text of the train number and is new.
\<close>

lemma add_train_cases:
  assumes "good db"
  shows "good (snd (add_train keep db (TextV p) n (TextV t))) \<and>
     (group_rows_of (snd (add_train keep db (TextV p) n (TextV t))) = group_rows_of db \<or>
      (\<exists>i s. text_of n = Some s \<and> s \<notin> group_title ` set (group_rows_of db) \<and>
         where_title n (group_rows_of db) = Inr [] \<and>
         group_rows_of (snd (add_train keep db (TextV p) n (TextV t))) =
           group_rows_of db @ [\<lparr>group_id = i, group_title = s\<rparr>]))"
proof -
  from assms obtain ng lg nt lt grows trows where
    db: "db = state_of ng lg nt lt grows trows" and
    g: "\<forall>r\<in>set grows. group_id r < ng" and
    t: "\<forall>r\<in>set trows. train_id r < nt" and
    d: "distinct (map group_title grows)" and
    l: "\<forall>r\<in>set trows. train_id r \<in> group_id ` set grows"
    unfolding good_def by blast
  show ?thesis
  proof (cases "where_title n grows")
    case (Inl e)
    then show ?thesis
      using assms by (simp add: db add_train_state [OF g])
  next
    case (Inr ys)
    show ?thesis
    proof (cases ys)
      case (Cons r rs)
      then show ?thesis
        using Inr good_insert_train [OF g t d l, where keep = keep and p = p
            and gid = "group_id r" and t = t and lg = lg and lt = lt]
        by (simp add: db add_train_state [OF g] group_rows_insert_train [OF t])
    next
      case Nil
      show ?thesis
      proof (cases "text_of n")
        case None
        have "good (state_of (ng + 1) (Some ng) nt lt grows trows)"
        proof (rule goodI)
          show "\<forall>r\<in>set grows. group_id r < ng + 1"
            using g by auto
        qed (use t d l in simp_all)
        then show ?thesis
          using None Nil Inr assms by (simp add: db add_train_state [OF g])
      next
        case (Some s)
        let ?grows = "grows @ [\<lparr>group_id = ng, group_title = s\<rparr>]"
        have new: "s \<notin> group_title ` set grows"
          using Inr Nil Some where_title_none by blast
        have g': "\<forall>r\<in>set ?grows. group_id r < ng + 1"
          using g by auto
        have d': "distinct (map group_title ?grows)"
          using d new by auto
        have l': "\<forall>r\<in>set trows. train_id r \<in> group_id ` set ?grows"
          using l by auto
        have e: "add_train keep db (TextV p) n (TextV t) =
                 insert_train keep (TextV p) ng (TextV t)
                   (state_of (ng + 1) (Some ng) nt lt ?grows trows)"
          using Inr Nil Some by (simp add: db add_train_state [OF g])
        have "good (snd (add_train keep db (TextV p) n (TextV t)))"
          unfolding e
          using g' t d' l' by (rule good_insert_train)
        moreover have "group_rows_of (snd (add_train keep db (TextV p) n (TextV t))) = ?grows"
          unfolding e using t by (rule group_rows_insert_train)
        ultimately show ?thesis
          using Some new Inr Nil by (auto simp: db)
      qed
    qed
  qed
qed

lemma run_snoc: "run keep (calls @ [c]) = step keep (run keep calls) c"
  by (simp add: run_def)

lemma good_step: "good db \<Longrightarrow> good (step keep db c)"
  by (cases c) (simp_all add: good_create_db add_train_cases)

lemma good_run: "good (run keep calls)"
proof (induction calls rule: rev_induct)
  case Nil
  show ?case by (simp add: run_def good_initial)
next
  case (snoc c calls)
  then show ?case by (simp add: run_snoc good_step)
qed

lemma run_is_state:
  obtains ng lg nt lt grows trows where
    "run keep calls = state_of ng lg nt lt grows trows"
    "\<forall>r\<in>set grows. group_id r < ng" "\<forall>r\<in>set trows. train_id r < nt"
    "\<forall>r\<in>set trows. train_id r \<in> group_id ` set grows"
  using good_run [of keep calls] unfolding good_def by blast

lemma supplied_append: "supplied (cs @ ds) = supplied cs \<union> supplied ds"
  by (induction cs rule: supplied.induct) auto

lemma supplied_snoc_add:
  "supplied (calls @ [Add_train p n t]) =
     supplied calls \<union> (case n of None \<Rightarrow> {} | Some m \<Rightarrow> {m})"
  by (cases n) (simp_all add: supplied_append)

text \<open>Every title is the text of a supplied train number.\<close>

lemma titles_subset:
  "group_title ` set (group_rows_of (run keep calls)) \<subseteq> str_int ` supplied calls"
proof (induction calls rule: rev_induct)
  case Nil
  show ?case by (simp add: run_def create_db_empty)
next
  case (snoc c calls)
  show ?case
  proof (cases c)
    case Create_db
    then show ?thesis
      using snoc by (simp add: run_snoc supplied_append good_create_db good_run)
  next
    case (Add_train p n t)
    let ?db = "run keep calls"
    let ?db' = "snd (add_train keep ?db (TextV p) (nomer_param n) (TextV t))"
    have r: "run keep (calls @ [c]) = ?db'"
      by (simp add: run_snoc Add_train)
    have mono: "str_int ` supplied calls \<subseteq> str_int ` supplied (calls @ [c])"
      by (auto simp: supplied_append)
    from add_train_cases [where db = "run keep calls" and keep = keep and p = p
        and n = "nomer_param n" and t = t, OF good_run]
    consider "group_rows_of ?db' = group_rows_of ?db"
      | i s where "text_of (nomer_param n) = Some s"
        "group_rows_of ?db' = group_rows_of ?db @ [\<lparr>group_id = i, group_title = s\<rparr>]"
      by blast
    then show ?thesis
    proof cases
      case 1
      then have "group_title ` set (group_rows_of (run keep (calls @ [c]))) =
                 group_title ` set (group_rows_of ?db)"
        by (simp only: r)
      then show ?thesis
        using snoc mono by simp
    next
      case 2
      then obtain m where m: "n = Some m" "s = str_int m"
        by (cases n) auto
      have "m \<in> supplied (calls @ [c])"
        by (simp add: Add_train m supplied_append)
      then have "s \<in> str_int ` supplied (calls @ [c])"
        using m by simp
      moreover have "group_title ` set (group_rows_of (run keep (calls @ [c]))) =
                 insert s (group_title ` set (group_rows_of ?db))"
        using 2 by (simp add: r)
      ultimately show ?thesis
        using snoc mono by auto
    qed
  qed
qed

section \<open>Runs with 32-bit train numbers\<close>

lemma int32_calls_iff: "int32_calls calls \<longleftrightarrow> (\<forall>m\<in>supplied calls. int32 m)"
  by (induction calls rule: supplied.induct) auto

lemma int32_calls_snoc: "int32_calls (calls @ [c]) \<Longrightarrow> int32_calls calls"
  by (auto simp: int32_calls_iff supplied_append)

lemma titles_canonical:
  assumes "int32_calls calls"
  shows "\<forall>r\<in>set (group_rows_of (run keep calls)). \<exists>m. int32 m \<and> group_title r = str_int m"
proof
  fix r assume "r \<in> set (group_rows_of (run keep calls))"
  then have "group_title r \<in> str_int ` supplied calls"
    using titles_subset [of keep calls] by blast
  then obtain m where "m \<in> supplied calls" "group_title r = str_int m"
    by blast
  then show "\<exists>m. int32 m \<and> group_title r = str_int m"
    using assms by (auto simp: int32_calls_iff)
qed

lemma where_title_run:
  assumes "int32_calls calls" "int32 n"
  shows "where_title (IntV n) (group_rows_of (run keep calls)) =
         Inr (filter (\<lambda>r. group_title r = str_int n) (group_rows_of (run keep calls)))"
  using assms(2) titles_canonical [OF assms(1)] by (rule where_title_int32)

lemma filter_title_empty:
  "filter (\<lambda>r. group_title r = s) grows = [] \<longleftrightarrow> s \<notin> group_title ` set grows"
  by (auto simp: filter_empty_conv)

text \<open>A known train number: the identifier found is passed on to the insert.\<close>

lemma add_train_known:
  assumes "good db" and "where_title n (group_rows_of db) = Inr (r # rs)"
  shows "select_group_id n db = Inr (Some (group_id r))"
    and "add_train keep db (TextV p) n (TextV t) =
         insert_train keep (TextV p) (group_id r) (TextV t) db"
    and "group_rows_of (snd (add_train keep db (TextV p) n (TextV t))) = group_rows_of db"
proof -
  from assms(1) obtain ng lg nt lt grows trows where
    db: "db = state_of ng lg nt lt grows trows" and
    g: "\<forall>r\<in>set grows. group_id r < ng" and
    t: "\<forall>r\<in>set trows. train_id r < nt"
    unfolding good_def by blast
  have w: "where_title n grows = Inr (r # rs)"
    using assms(2) by (simp add: db)
  show "select_group_id n db = Inr (Some (group_id r))"
    using w by (simp add: db select_group_id_state)
  show e: "add_train keep db (TextV p) n (TextV t) =
         insert_train keep (TextV p) (group_id r) (TextV t) db"
    using w by (simp add: db add_train_state [OF g])
  show "group_rows_of (snd (add_train keep db (TextV p) n (TextV t))) = group_rows_of db"
    unfolding e by (simp add: db group_rows_insert_train [OF t])
qed

text \<open>A new train number: one row is added, with the number's text as its title.\<close>

lemma add_train_new:
  assumes "good db" and "where_title (IntV n) (group_rows_of db) = Inr []"
  shows "\<exists>i. group_rows_of (snd (add_train keep db (TextV p) (IntV n) (TextV t))) =
             group_rows_of db @ [\<lparr>group_id = i, group_title = str_int n\<rparr>]"
proof -
  from assms(1) obtain ng lg nt lt grows trows where
    db: "db = state_of ng lg nt lt grows trows" and
    g: "\<forall>r\<in>set grows. group_id r < ng" and
    t: "\<forall>r\<in>set trows. train_id r < nt"
    unfolding good_def by blast
  have w: "where_title (IntV n) grows = Inr []"
    using assms(2) by (simp add: db)
  have "add_train keep db (TextV p) (IntV n) (TextV t) =
        insert_train keep (TextV p) ng (TextV t)
          (state_of (ng + 1) (Some ng) nt lt
             (grows @ [\<lparr>group_id = ng, group_title = str_int n\<rparr>]) trows)"
    using w by (simp add: db add_train_state [OF g])
  then show ?thesis
    by (simp add: db group_rows_insert_train [OF t])
qed

lemma titles_run:
  assumes "int32_calls calls"
  shows "group_title ` set (group_rows_of (run keep calls)) = str_int ` supplied calls"
  using assms
proof (induction calls rule: rev_induct)
  case Nil
  show ?case by (simp add: run_def create_db_empty)
next
  case (snoc c calls)
  have small: "int32_calls calls"
    using snoc.prems by (rule int32_calls_snoc)
  have ih: "group_title ` set (group_rows_of (run keep calls)) = str_int ` supplied calls"
    using small by (rule snoc.IH)
  show ?case
  proof (cases c)
    case Create_db
    then show ?thesis
      using ih by (simp add: run_snoc supplied_append good_create_db good_run)
  next
    case (Add_train p n t)
    show ?thesis
    proof (cases n)
      case None
      have "where_title Null (group_rows_of (run keep calls)) = Inr []"
        by (rule where_title_null)
      then have "group_rows_of (run keep (calls @ [c])) = group_rows_of (run keep calls)"
        using add_train_cases [where db = "run keep calls" and keep = keep and p = p
            and n = Null and t = t, OF good_run]
        by (auto simp: run_snoc Add_train None)
      then show ?thesis
        using ih by (simp add: Add_train None supplied_append)
    next
      case (Some m)
      let ?rows = "group_rows_of (run keep calls)"
      have m32: "int32 m"
        using snoc.prems by (simp add: int32_calls_iff Add_train Some supplied_append)
      have w: "where_title (IntV m) ?rows = Inr (filter (\<lambda>r. group_title r = str_int m) ?rows)"
        using small m32 by (rule where_title_run)
      have s: "supplied (calls @ [c]) = insert m (supplied calls)"
        by (simp add: Add_train Some supplied_append)
      show ?thesis
      proof (cases "filter (\<lambda>r. group_title r = str_int m) ?rows")
        case Nil
        then obtain i where "group_rows_of (run keep (calls @ [c])) =
            ?rows @ [\<lparr>group_id = i, group_title = str_int m\<rparr>]"
          using add_train_new [OF good_run, of m keep calls keep p t] w
          by (auto simp: run_snoc Add_train Some)
        then show ?thesis
          using ih by (simp add: s)
      next
        case (Cons r rs)
        then have "filter (\<lambda>r. group_title r = str_int m) ?rows \<noteq> []"
          by simp
        then have "str_int m \<in> group_title ` set ?rows"
          by (simp only: filter_title_empty not_not)
        moreover have "group_rows_of (run keep (calls @ [c])) = ?rows"
          using add_train_known(3) [OF good_run, of "IntV m" keep calls r rs keep p t] w Cons
          by (simp add: run_snoc Add_train Some)
        ultimately show ?thesis
          using ih by (auto simp: s)
      qed
    qed
  qed
qed

section \<open>Group rows after a run\<close>



lemma add_seen_reuses_group:
  assumes "int32_calls calls" and "n \<in> supplied calls"
  shows "group_rows_of (step keep (run keep calls) (Add_train p (Some n) t)) =
           group_rows_of (run keep calls) \<and>
         (\<exists>g\<in>set (group_rows_of (run keep calls)).
            group_title g = str_int n \<and>
            select_group_id (IntV n) (run keep calls) = Inr (Some (group_id g)) \<and>
            add_train keep (run keep calls) (TextV p) (IntV n) (TextV t) =
              insert_train keep (TextV p) (group_id g) (TextV t) (run keep calls))"
proof -
  let ?rows = "group_rows_of (run keep calls)"
  have n32: "int32 n"
    using assms by (simp add: int32_calls_iff)
  have w: "where_title (IntV n) ?rows = Inr (filter (\<lambda>r. group_title r = str_int n) ?rows)"
    using assms(1) n32 by (rule where_title_run)
  have "str_int n \<in> group_title ` set ?rows"
    using assms by (simp add: titles_run)
  then have "filter (\<lambda>r. group_title r = str_int n) ?rows \<noteq> []"
    by (simp add: filter_title_empty)
  then obtain g rs where f: "filter (\<lambda>r. group_title r = str_int n) ?rows = g # rs"
    by (cases "filter (\<lambda>r. group_title r = str_int n) ?rows") auto
  then have "g \<in> set (filter (\<lambda>r. group_title r = str_int n) ?rows)"
    by simp
  then have g: "g \<in> set ?rows" "group_title g = str_int n"
    by simp_all
  have w': "where_title (IntV n) ?rows = Inr (g # rs)"
    using w f by simp
  have a: "select_group_id (IntV n) (run keep calls) = Inr (Some (group_id g))"
    using good_run w' by (rule add_train_known)
  have b: "add_train keep (run keep calls) (TextV p) (IntV n) (TextV t) =
           insert_train keep (TextV p) (group_id g) (TextV t) (run keep calls)"
    using good_run w' by (rule add_train_known)
  have c: "group_rows_of (snd (add_train keep (run keep calls) (TextV p) (IntV n) (TextV t))) =
           ?rows"
    using good_run w' by (rule add_train_known)
  have "\<exists>g\<in>set ?rows. group_title g = str_int n \<and>
            select_group_id (IntV n) (run keep calls) = Inr (Some (group_id g)) \<and>
            add_train keep (run keep calls) (TextV p) (IntV n) (TextV t) =
              insert_train keep (TextV p) (group_id g) (TextV t) (run keep calls)"
    using g(1)
  proof (rule bexI [rotated])
    show "group_title g = str_int n \<and>
            select_group_id (IntV n) (run keep calls) = Inr (Some (group_id g)) \<and>
            add_train keep (run keep calls) (TextV p) (IntV n) (TextV t) =
              insert_train keep (TextV p) (group_id g) (TextV t) (run keep calls)"
      using g(2) a b by (intro conjI)
  qed
  then show ?thesis
    using c by simp
qed




lemma str_int_101: "str_int 101 = str ''101''"
  by (simp add: str_int_def digits.simps str_def)

lemma where_title_101_empty: "where_title (IntV 101) [] = Inr []"
  by (simp add: where_title_def int_type_def)

lemma run_moscow:
  "run keep [Add_train (str ''Moscow'') (Some 101) (str ''14:30'')] = moscow_db"
  by (simp add: run_def create_db_empty add_train_state insert_train_state str_int_101
      moscow_db_def where_title_101_empty)

lemma int32_101: "int32 101"
  by (simp add: int32_def)


lemma add_moscow_new:
  "add_train keep (state_of 1 None 1 None [] []) (TextV (str ''Moscow'')) (IntV 101)
     (TextV (str ''14:30'')) = (Inr (), moscow_db)"
  by (simp add: add_train_state insert_train_state str_int_101 moscow_db_def
      where_title_101_empty)


section \<open>The reading statements\<close>

lemma to_mapping_nomer:
  "(to_mapping x ''nomer'' = Some (PStr s)) \<longleftrightarrow> (group_title (snd x) = s)"
  by (cases x) (auto simp: to_mapping_def)

lemma joined_filter:
  "joined t (g\<lparr>groups_rows := filter Q (groups_rows g)\<rparr>) =
   filter (\<lambda>x. Q (snd x)) (joined t g)"
  by (simp add: joined_def filter_concat filter_map comp_def conj_commute)

lemma select_by_num_where:
  assumes "select_all db = Inr rows"
    and "\<exists>t g. trains db = Some t \<and> groups db = Some g \<and>
           where_title nomer (groups_rows g) = Inr (filter (\<lambda>r. group_title r = s) (groups_rows g))"
  shows "select_by_num db nomer = Inr (filter (\<lambda>r. r ''nomer'' = Some (PStr s)) rows)"
proof -
  from assms(2) obtain t g where tg: "trains db = Some t" "groups db = Some g"
    and w: "where_title nomer (groups_rows g) =
            Inr (filter (\<lambda>r. group_title r = s) (groups_rows g))"
    by blast
  have rows: "rows = map to_mapping (joined t g)"
    using assms(1) by (simp add: select_all_def tg)
  have "filter (\<lambda>r. r ''nomer'' = Some (PStr s)) (map to_mapping (joined t g)) =
        map to_mapping (filter (\<lambda>x. group_title (snd x) = s) (joined t g))"
    by (simp add: filter_map comp_def to_mapping_nomer)
  then show ?thesis
    by (simp add: select_by_num_def tg w rows joined_filter)
qed

lemma select_all_tables:
  "select_all db = Inr rows \<Longrightarrow> \<exists>t g. trains db = Some t \<and> groups db = Some g"
  by (auto simp: select_all_def split: option.splits)

lemma select_by_num_text:
  assumes "select_all db = Inr rows"
  shows "select_by_num db (TextV s) = Inr (filter (\<lambda>r. r ''nomer'' = Some (PStr s)) rows)"
proof -
  obtain t g where "trains db = Some t" "groups db = Some g"
    using select_all_tables [OF assms] by blast
  then have "\<exists>t g. trains db = Some t \<and> groups db = Some g \<and>
           where_title (TextV s) (groups_rows g) =
             Inr (filter (\<lambda>r. group_title r = s) (groups_rows g))"
    by (simp add: where_title_text)
  with assms show ?thesis
    by (rule select_by_num_where)
qed

lemma select_by_num_error:
  "select_all db = Inl e \<Longrightarrow> select_by_num db nomer = Inl e"
  by (auto simp: select_all_def select_by_num_def split: option.splits)

lemma run_tables:
  "\<exists>t g. trains (run keep calls) = Some t \<and> groups (run keep calls) = Some g \<and>
     groups_rows g = group_rows_of (run keep calls)"
proof -
  obtain ng lg nt lt grows trows where
    "run keep calls = state_of ng lg nt lt grows trows"
    by (rule run_is_state)
  then show ?thesis by simp
qed

lemma select_all_run: "\<exists>rows. select_all (run keep calls) = Inr rows"
  using run_tables [of keep calls] by (auto simp: select_all_def)

lemma select_by_num_int32:
  assumes "int32_calls calls" "int32 n" "select_all (run keep calls) = Inr rows"
  shows "select_by_num (run keep calls) (IntV n) =
         Inr (filter (\<lambda>r. r ''nomer'' = Some (PStr (str_int n))) rows)"
proof -
  obtain t g where tg: "trains (run keep calls) = Some t" "groups (run keep calls) = Some g"
    "groups_rows g = group_rows_of (run keep calls)"
    using run_tables [of keep calls] by blast
  have "where_title (IntV n) (groups_rows g) =
        Inr (filter (\<lambda>r. group_title r = str_int n) (groups_rows g))"
    using where_title_run [OF assms(1) assms(2), of keep] by (simp add: tg(3))
  then have "\<exists>t g. trains (run keep calls) = Some t \<and> groups (run keep calls) = Some g \<and>
           where_title (IntV n) (groups_rows g) =
             Inr (filter (\<lambda>r. group_title r = str_int n) (groups_rows g))"
    using tg by simp
  with assms(3) show ?thesis
    by (rule select_by_num_where)
qed

lemma joined_groups: "(tr, gr) \<in> set (joined t g) \<Longrightarrow> gr \<in> set (groups_rows g)"
  by (auto simp: joined_def)

text \<open>No title is the text \<open>s\<close>: no row of \<open>select_all\<close> has \<open>s\<close> as its train number.\<close>

lemma no_row_without_title:
  assumes "s \<notin> str_int ` supplied calls" and "select_all (run keep calls) = Inr rows"
  shows "filter (\<lambda>r. r ''nomer'' = Some (PStr s)) rows = []"
proof -
  obtain t g where tg: "trains (run keep calls) = Some t" "groups (run keep calls) = Some g"
    "groups_rows g = group_rows_of (run keep calls)"
    using run_tables [of keep calls] by blast
  have rows: "rows = map to_mapping (joined t g)"
    using assms(2) by (simp add: select_all_def tg)
  have no: "group_title gr \<noteq> s" if "gr \<in> set (groups_rows g)" for gr
  proof
    assume "group_title gr = s"
    then have "s \<in> group_title ` set (group_rows_of (run keep calls))"
      using that tg(3) by (metis image_eqI)
    then show False
      using assms(1) titles_subset [of keep calls] by blast
  qed
  have "\<not> (to_mapping x ''nomer'' = Some (PStr s))" if "x \<in> set (joined t g)" for x
  proof -
    obtain tr gr where x: "x = (tr, gr)"
      by (cases x)
    then have "gr \<in> set (groups_rows g)"
      using that joined_groups [of tr gr t g] by simp
    then show ?thesis
      using no x by (simp add: to_mapping_nomer)
  qed
  then show ?thesis
    by (simp only: rows filter_empty_conv) auto
qed

text \<open>
  C5, as the claim states it, fails: in the database that \<open>add_train\<close> with the train
  number 2147483648 leaves, \<open>select_by_num\<close> with the filter 7, a number never inserted,
  raises a conversion error where the claim has it return the empty sequence;
  \<open>select_all\<close> returns the one row.
\<close>

theorem select_by_num_raises_on_wide_title:
  "supplied [Add_train (str ''Moscow'') (Some 2147483648) (str ''14:30'')] = {2147483648} \<and>
   select_by_num (run False [Add_train (str ''Moscow'') (Some 2147483648) (str ''14:30'')])
     (IntV 7) = Inl ConversionError \<and>
   select_all (run False [Add_train (str ''Moscow'') (Some 2147483648) (str ''14:30'')]) =
     Inr [[''punkt'' \<mapsto> PStr (str ''Moscow''), ''nomer'' \<mapsto> PStr (str_int 2147483648),
           ''time'' \<mapsto> PStr (str ''14:30'')]]"
proof -
  have a: "where_title (IntV 2147483648) [] = Inr []"
    by (simp add: where_title_def int_type_def)
  have b: "where_title (IntV 7) [\<lparr>group_id = 1, group_title = str_int 2147483648\<rparr>] =
           Inl ConversionError"
    by (simp add: where_title_def int_type_def int_of_str_str_int)
  have c: "run False [Add_train (str ''Moscow'') (Some 2147483648) (str ''14:30'')] =
           state_of 2 (Some 1) 2 (Some 1)
             [\<lparr>group_id = 1, group_title = str_int 2147483648\<rparr>]
             [\<lparr>train_id = 1, train_punkt = str ''Moscow'', train_nomer = 1,
               train_time = str ''14:30''\<rparr>]"
    by (simp add: run_def create_db_empty add_train_state insert_train_state a)
  show ?thesis
    unfolding c
    by (simp add: select_by_num_def select_all_def b joined_def to_mapping_def)
qed

text \<open>
  C5, amended. On every database and for every filter value that is a string, which is
  what the \<open>select\<close> command passes, \<open>select_by_num\<close> returns the rows of \<open>select_all\<close>
  whose train-number field equals the filter value, as a list in the model's order and
  so as a multiset, and raises what \<open>select_all\<close> raises; after any run, a string that
  is the text of no supplied train number gives the empty list. For a filter value that
  is an \<open>int\<close> of the 32-bit integer type, after a run whose train numbers are of that
  type, it returns the rows whose train-number field is the decimal text of the filter
  value, and the empty list when the number was never supplied.
\<close>

theorem select_by_num_subset_of_select_all:
  "(select_all db = Inr rows \<longrightarrow>
      select_by_num db (TextV s) = Inr (filter (\<lambda>r. r ''nomer'' = Some (PStr s)) rows) \<and>
      (\<exists>rows'. select_by_num db (TextV s) = Inr rows' \<and>
         mset rows' = filter_mset (\<lambda>r. r ''nomer'' = Some (PStr s)) (mset rows))) \<and>
   (select_all db = Inl e \<longrightarrow> select_by_num db (TextV s) = Inl e) \<and>
   (s \<notin> str_int ` supplied calls \<longrightarrow> select_by_num (run keep calls) (TextV s) = Inr []) \<and>
   (int32_calls calls \<and> int32 n \<and> select_all (run keep calls) = Inr found \<longrightarrow>
      select_by_num (run keep calls) (IntV n) =
        Inr (filter (\<lambda>r. r ''nomer'' = Some (PStr (str_int n))) found) \<and>
      (n \<notin> supplied calls \<longrightarrow> select_by_num (run keep calls) (IntV n) = Inr []))"
proof (intro conjI impI)
  assume a: "select_all db = Inr rows"
  show "select_by_num db (TextV s) = Inr (filter (\<lambda>r. r ''nomer'' = Some (PStr s)) rows)"
    using a by (rule select_by_num_text)
  then show "\<exists>rows'. select_by_num db (TextV s) = Inr rows' \<and>
         mset rows' = filter_mset (\<lambda>r. r ''nomer'' = Some (PStr s)) (mset rows)"
    by simp
next
  assume "select_all db = Inl e"
  then show "select_by_num db (TextV s) = Inl e"
    by (rule select_by_num_error)
next
  assume new: "s \<notin> str_int ` supplied calls"
  obtain all_rows where all_rows: "select_all (run keep calls) = Inr all_rows"
    using select_all_run by blast
  show "select_by_num (run keep calls) (TextV s) = Inr []"
    using select_by_num_text [OF all_rows, of s] no_row_without_title [OF new all_rows]
    by simp
next
  assume h: "int32_calls calls \<and> int32 n \<and> select_all (run keep calls) = Inr found"
  then show e: "select_by_num (run keep calls) (IntV n) =
        Inr (filter (\<lambda>r. r ''nomer'' = Some (PStr (str_int n))) found)"
    by (intro select_by_num_int32) simp_all
  assume "n \<notin> supplied calls"
  then have "str_int n \<notin> str_int ` supplied calls"
    by (simp add: inj_image_mem_iff [OF inj_str_int])
  then have "filter (\<lambda>r. r ''nomer'' = Some (PStr (str_int n))) found = []"
    using h by (intro no_row_without_title [of _ calls keep]) simp_all
  then show "select_by_num (run keep calls) (IntV n) = Inr []"
    using e by simp
qed

lemma select_all_moscow: "select_all moscow_db = Inr [moscow_row]"
  by (simp add: select_all_def joined_def to_mapping_def moscow_db_def moscow_row_def)

theorem select_by_num_subset_of_select_all_witness:
  "select_all moscow_db = Inr [moscow_row] \<and>
   select_by_num moscow_db (TextV (str ''101'')) = Inr [moscow_row] \<and>
   str ''102'' \<notin> str_int ` supplied [Add_train (str ''Moscow'') (Some 101) (str ''14:30'')] \<and>
   select_by_num (run True [Add_train (str ''Moscow'') (Some 101) (str ''14:30'')])
     (TextV (str ''102'')) = Inr [] \<and>
   int32_calls [Add_train (str ''Moscow'') (Some 101) (str ''14:30'')] \<and> int32 101 \<and>
   select_all (run True [Add_train (str ''Moscow'') (Some 101) (str ''14:30'')]) =
     Inr [moscow_row] \<and>
   select_by_num (run True [Add_train (str ''Moscow'') (Some 101) (str ''14:30'')]) (IntV 101) =
     Inr [moscow_row]"
proof -
  have a: "select_all moscow_db = Inr [moscow_row]"
    by (rule select_all_moscow)
  have b: "str ''102'' \<notin>
     str_int ` supplied [Add_train (str ''Moscow'') (Some 101) (str ''14:30'')]"
    by (simp add: str_int_101 str_def)
  have c: "moscow_row ''nomer'' = Some (PStr (str ''101''))"
    by (simp add: moscow_row_def)
  have h: "int32_calls [Add_train (str ''Moscow'') (Some 101) (str ''14:30'')]"
    by (simp add: int32_101)
  show ?thesis
    using a b c h int32_101
      select_by_num_subset_of_select_all [where db = moscow_db and rows = "[moscow_row]"
        and s = "str ''101''"]
      select_by_num_subset_of_select_all [where s = "str ''102''" and keep = True
        and calls = "[Add_train (str ''Moscow'') (Some 101) (str ''14:30'')]"
        and n = 101 and found = "[moscow_row]"]
    by (simp add: run_moscow str_int_101)
qed

section \<open>The foreign key\<close>

lemma insert_train_rejected:
  assumes "map_option next_value (sequences (run keep calls) train_st) = Some v"
    and "v \<notin> group_id ` set (group_rows_of (run keep calls))"
  shows "fst (insert_train keep (TextV p) gid (TextV t) (run keep calls)) =
         Inl ForeignKeyViolation"
proof -
  obtain ng lg nt lt grows trows where
    db: "run keep calls = state_of ng lg nt lt grows trows" and
    t: "\<forall>r\<in>set trows. train_id r < nt"
    by (rule run_is_state)
  have "v = nt"
    using assms(1) by (simp add: db)
  then have "nt \<notin> group_id ` set grows"
    using assms(2) by (simp add: db)
  then show ?thesis
    by (simp add: db insert_train_state [OF t])
qed

lemma add_train_seen_rejected:
  assumes "int32_calls calls" and "n \<in> supplied calls"
    and "map_option next_value (sequences (run keep calls) train_st) = Some v"
    and "v \<notin> group_id ` set (group_rows_of (run keep calls))"
  shows "fst (add_train keep (run keep calls) (TextV p) (IntV n) (TextV t)) =
         Inl ForeignKeyViolation"
proof -
  have "\<exists>g\<in>set (group_rows_of (run keep calls)).
            group_title g = str_int n \<and>
            select_group_id (IntV n) (run keep calls) = Inr (Some (group_id g)) \<and>
            add_train keep (run keep calls) (TextV p) (IntV n) (TextV t) =
              insert_train keep (TextV p) (group_id g) (TextV t) (run keep calls)"
    using add_seen_reuses_group [OF assms(1) assms(2)] by (rule conjunct2)
  then obtain g where "g \<in> set (group_rows_of (run keep calls))"
    and gp: "group_title g = str_int n \<and>
            select_group_id (IntV n) (run keep calls) = Inr (Some (group_id g)) \<and>
            add_train keep (run keep calls) (TextV p) (IntV n) (TextV t) =
              insert_train keep (TextV p) (group_id g) (TextV t) (run keep calls)" ..
  from gp have "add_train keep (run keep calls) (TextV p) (IntV n) (TextV t) =
              insert_train keep (TextV p) (group_id g) (TextV t) (run keep calls)"
    by (elim conjE)
  then show ?thesis
    using insert_train_rejected [OF assms(3) assms(4)] by simp
qed

lemma image_witness:
  fixes grows :: "group_row list" and trows :: "train_row list"
  assumes l: "\<forall>r\<in>set trows. train_id r \<in> group_id ` set grows"
  shows "\<forall>r\<in>set trows. \<exists>g\<in>set grows. group_id g = train_id r"
proof
  fix r assume "r \<in> set trows"
  with l have "train_id r \<in> group_id ` set grows" ..
  then obtain g where "g \<in> set grows" and "train_id r = group_id g" ..
  then show "\<exists>g\<in>set grows. group_id g = train_id r"
    by (intro bexI [of _ g]) simp_all
qed

text \<open>
  C6. After any run the \<open>trains\<close> table carries the foreign key that \<open>create_db\<close>
  declared, from its own \<open>train_id\<close> to \<open>groups.train_id\<close> and not from
  \<open>train_nomer\<close>; every train row has the identifier of some group row; the record
  sequence has a next value; and whenever that value is the identifier of no group, the
  insert of \<open>add_train\<close> is rejected as a foreign-key violation, so that, in a run with
  train numbers of the 32-bit integer type, \<open>add_train\<close> with a train number supplied
  before raises it.
\<close>

theorem train_ids_are_group_ids:
  "map_option trains_foreign_keys (trains (run keep calls)) = Some [(t_train_id, g_train_id)] \<and>
   (\<forall>r\<in>set (train_rows_of (run keep calls)).
      \<exists>g\<in>set (group_rows_of (run keep calls)). group_id g = train_id r) \<and>
   (\<exists>w. map_option next_value (sequences (run keep calls) train_st) = Some w) \<and>
   (map_option next_value (sequences (run keep calls) train_st) = Some v \<and>
    v \<notin> group_id ` set (group_rows_of (run keep calls)) \<longrightarrow>
      fst (insert_train keep (TextV p) gid (TextV t) (run keep calls)) =
        Inl ForeignKeyViolation \<and>
      (int32_calls calls \<and> n \<in> supplied calls \<longrightarrow>
         fst (add_train keep (run keep calls) (TextV p) (IntV n) (TextV t)) =
           Inl ForeignKeyViolation))"
proof -
  obtain ng lg nt lt grows trows where
    db: "run keep calls = state_of ng lg nt lt grows trows" and
    l: "\<forall>r\<in>set trows. train_id r \<in> group_id ` set grows"
    by (rule run_is_state)
  have a: "map_option trains_foreign_keys (trains (run keep calls)) =
           Some [(t_train_id, g_train_id)]"
    by (simp add: db)
  have b: "\<forall>r\<in>set (train_rows_of (run keep calls)).
      \<exists>g\<in>set (group_rows_of (run keep calls)). group_id g = train_id r"
    unfolding db rows_of_state using l by (rule image_witness)
  have c: "\<exists>w. map_option next_value (sequences (run keep calls) train_st) = Some w"
    by (simp add: db)
  have d: "fst (insert_train keep (TextV p) gid (TextV t) (run keep calls)) =
        Inl ForeignKeyViolation \<and>
      (int32_calls calls \<and> n \<in> supplied calls \<longrightarrow>
         fst (add_train keep (run keep calls) (TextV p) (IntV n) (TextV t)) =
           Inl ForeignKeyViolation)"
    if h: "map_option next_value (sequences (run keep calls) train_st) = Some v \<and>
           v \<notin> group_id ` set (group_rows_of (run keep calls))"
  proof -
    from h have h1: "map_option next_value (sequences (run keep calls) train_st) = Some v"
      and h2: "v \<notin> group_id ` set (group_rows_of (run keep calls))"
      by blast+
    show ?thesis
      using insert_train_rejected [OF h1 h2] add_train_seen_rejected [OF _ _ h1 h2] by blast
  qed
  show ?thesis
  proof (intro conjI)
    show "map_option next_value (sequences (run keep calls) train_st) = Some v \<and>
      v \<notin> group_id ` set (group_rows_of (run keep calls)) \<longrightarrow>
      fst (insert_train keep (TextV p) gid (TextV t) (run keep calls)) =
        Inl ForeignKeyViolation \<and>
      (int32_calls calls \<and> n \<in> supplied calls \<longrightarrow>
         fst (add_train keep (run keep calls) (TextV p) (IntV n) (TextV t)) =
           Inl ForeignKeyViolation)"
      by (rule impI) (rule d)
  qed (rule a b c)+
qed

lemma moscow_rows:
  "group_rows_of moscow_db = [\<lparr>group_id = 1, group_title = str ''101''\<rparr>]"
  "sequences moscow_db train_st = Some \<lparr>next_value = 2, last_value = Some 1\<rparr>"
  by (simp_all add: moscow_db_def)

theorem train_ids_are_group_ids_witness:
  "map_option next_value
     (sequences (run True [Add_train (str ''Moscow'') (Some 101) (str ''14:30'')]) train_st) =
     Some 2 \<and>
   2 \<notin> group_id `
     set (group_rows_of (run True [Add_train (str ''Moscow'') (Some 101) (str ''14:30'')])) \<and>
   int32_calls [Add_train (str ''Moscow'') (Some 101) (str ''14:30'')] \<and>
   101 \<in> supplied [Add_train (str ''Moscow'') (Some 101) (str ''14:30'')] \<and>
   fst (insert_train True (TextV (str ''Kazan'')) 1 (TextV (str ''09:00''))
          (run True [Add_train (str ''Moscow'') (Some 101) (str ''14:30'')])) =
     Inl ForeignKeyViolation \<and>
   fst (add_train True (run True [Add_train (str ''Moscow'') (Some 101) (str ''14:30'')])
          (TextV (str ''Kazan'')) (IntV 101) (TextV (str ''09:00''))) =
     Inl ForeignKeyViolation"
  using train_ids_are_group_ids [where keep = True
      and calls = "[Add_train (str ''Moscow'') (Some 101) (str ''14:30'')]"
      and v = 2 and p = "str ''Kazan''" and gid = 1 and t = "str ''09:00''" and n = 101]
  by (simp add: run_moscow moscow_rows int32_101)

lemma where_title_101_moscow:
  "where_title (IntV 101) [\<lparr>group_id = 1, group_title = str ''101''\<rparr>] =
     Inr [\<lparr>group_id = 1, group_title = str ''101''\<rparr>]"
  using title_equals_int32 [OF int32_101 int32_101]
  by (simp add: where_title_def int_type_int32 [OF int32_101] str_int_101 del: title_equals.simps)

text \<open>
  C1, evaluated. The foreign key of the schema is on \<open>train_id\<close>. After
  \<open>add_train\<close> of Moscow, 101, 14:30 on a new file the group of 101 has identifier 1;
  a train row whose \<open>train_nomer\<close> is 1, the existing group, is rejected because its
  own identifier 2 is no group identifier; and once a second group exists, a train row
  whose \<open>train_nomer\<close> is 99, the identifier of no group, is accepted. The constraint
  does not guard \<open>train_nomer\<close>.
\<close>

theorem foreign_key_on_train_id_rejects_valid_nomer:
  "map_option trains_foreign_keys (trains (snd (create_db empty_database))) =
     Some [(t_train_id, g_train_id)] \<and>
   run keep [Add_train (str ''Moscow'') (Some 101) (str ''14:30'')] = moscow_db \<and>
   select_group_id (IntV 101) moscow_db = Inr (Some 1) \<and>
   map group_id (group_rows_of moscow_db) = [1] \<and>
   fst (insert_train keep (TextV (str ''Kazan'')) 1 (TextV (str ''09:00'')) moscow_db) =
     Inl ForeignKeyViolation \<and>
   map group_id (group_rows_of (snd (insert_group keep (IntV 102) moscow_db))) = [1, 2] \<and>
   fst (insert_train keep (TextV (str ''Kazan'')) 99 (TextV (str ''09:00''))
          (snd (insert_group keep (IntV 102) moscow_db))) = Inr ()"
proof -
  have b: "bindable (IntV 102)"
    by (simp add: int_type_def)
  have g: "\<forall>r\<in>set [\<lparr>group_id = 1, group_title = str ''101''\<rparr>]. group_id r < 2"
    by simp
  show ?thesis
    by (simp add: create_db_empty run_moscow moscow_rows)
      (simp add: moscow_db_def select_group_id_state where_title_101_moscow insert_train_state
        insert_group_state [OF g b])
qed

text \<open>
  C2, evaluated. In the database that \<open>add_train\<close> of Moscow, 101, 14:30 leaves,
  \<open>add_train\<close> of Kazan, 101, 09:00 raises a foreign-key violation, and \<open>select_all\<close>
  afterwards returns the Moscow row alone.
\<close>

theorem add_train_then_select_all_misses_row:
  "run keep [Add_train (str ''Moscow'') (Some 101) (str ''14:30'')] = moscow_db \<and>
   fst (add_train keep moscow_db (TextV (str ''Kazan'')) (IntV 101) (TextV (str ''09:00''))) =
     Inl ForeignKeyViolation \<and>
   select_all (snd (add_train keep moscow_db (TextV (str ''Kazan'')) (IntV 101)
                      (TextV (str ''09:00'')))) = Inr [moscow_row] \<and>
   moscow_row ''punkt'' = Some (PStr (str ''Moscow''))"
  by (simp add: run_moscow)
    (simp add: moscow_db_def add_train_state insert_train_state where_title_101_moscow
      select_all_def joined_def to_mapping_def moscow_row_def)

section \<open>The example scenario\<close>

lemmas parse_defs = parse_args_def parse_subcommand_def add_parser_def file_parser_def
  display_parser_def select_parser_def defaults_def convert_def option_like_def python_int_def
  strip_def is_space_def python_digits_def negative_number_def is_digit_def nat_of_digits_def
  str_def

lemma parse_add_moscow:
  "parse_args cwd add_moscow =
     Inr [''db'' \<mapsto> TextV (default_db cwd), ''punkt'' \<mapsto> TextV (str ''Moscow''),
          ''nomer'' \<mapsto> IntV 101, ''time'' \<mapsto> TextV (str ''14:30''),
          ''command'' \<mapsto> TextV (str ''add'')]"
  apply (simp add: parse_defs add_moscow_def)
  apply (rule ext)
  apply simp
  done

lemma parse_add_kazan:
  "parse_args cwd add_kazan =
     Inr [''db'' \<mapsto> TextV (default_db cwd), ''punkt'' \<mapsto> TextV (str ''Kazan''),
          ''nomer'' \<mapsto> IntV 101, ''time'' \<mapsto> TextV (str ''09:00''),
          ''command'' \<mapsto> TextV (str ''add'')]"
  apply (simp add: parse_defs add_kazan_def)
  apply (rule ext)
  apply simp
  done

lemma parse_display:
  "parse_args cwd display =
     Inr [''db'' \<mapsto> TextV (default_db cwd), ''command'' \<mapsto> TextV (str ''display'')]"
  by (simp add: parse_defs display_def)

lemma parse_select_101:
  "parse_args cwd select_101 =
     Inr [''db'' \<mapsto> TextV (default_db cwd), ''select'' \<mapsto> TextV (str ''101''),
          ''command'' \<mapsto> TextV (str ''select'')]"
  apply (simp add: parse_defs select_101_def)
  apply (rule ext)
  apply simp
  done

lemma str_neq:
  "str ''add'' \<noteq> str ''display''" "str ''add'' \<noteq> str ''select''"
  "str ''display'' \<noteq> str ''add''" "str ''display'' \<noteq> str ''select''"
  "str ''select'' \<noteq> str ''add''" "str ''select'' \<noteq> str ''display''"
  by (simp_all add: str_def)

lemma create_db_moscow: "create_db moscow_db = (Inr (), moscow_db)"
  by (rule create_db_fixed) (simp_all add: moscow_db_def)

lemma main_add_moscow:
  "main keep cwd add_moscow Map.empty = (Inr (), [], [default_db cwd \<mapsto> moscow_db])"
  by (simp add: main_def parse_add_moscow getattr_def connect_def create_db_empty
      dispatch_def add_moscow_new)

lemma add_kazan_moscow:
  "add_train keep moscow_db (TextV (str ''Kazan'')) (IntV 101) (TextV (str ''09:00'')) =
     (Inl ForeignKeyViolation, kazan_db keep)"
  by (simp add: moscow_db_def kazan_db_def add_train_state insert_train_state
      where_title_101_moscow)

lemma main_add_kazan:
  "main keep cwd add_kazan [default_db cwd \<mapsto> moscow_db] =
     (Inl ForeignKeyViolation, [], [default_db cwd \<mapsto> kazan_db keep])"
  by (simp add: main_def parse_add_kazan getattr_def connect_def create_db_moscow
      dispatch_def add_kazan_moscow)

lemma replicate_numeral: "replicate (numeral k) x = x # replicate (pred_numeral k) x"
  by (simp add: numeral_eq_Suc)

lemma moscow_data_row:
  "data_row 1 moscow_row =
     str ''|    1 | Moscow                         | 101                  |  14:30               |''"
  by (simp add: data_row_def index_field_def punkt_field_def nomer_field_def time_field_def
      format_field_def pad_def dict_get_def moscow_row_def str_int_def digits.simps str_def
      replicate_numeral)

lemma display_moscow:
  "display_trains [moscow_row] =
     [line, header, line,
      str ''|    1 | Moscow                         | 101                  |  14:30               |'',
      line]"
  using moscow_data_row by (simp add: display_trains_def enumerate_eq_zip)

lemma main_display_moscow:
  "main keep cwd display [default_db cwd \<mapsto> moscow_db] =
     (Inr (), display_trains [moscow_row], [default_db cwd \<mapsto> moscow_db])"
  by (simp add: main_def parse_display getattr_def connect_def create_db_moscow
      dispatch_def str_neq select_all_moscow)

lemma create_db_kazan: "create_db (kazan_db keep) = (Inr (), kazan_db keep)"
  by (rule create_db_fixed) (simp_all add: kazan_db_def moscow_db_def)

lemma select_by_num_kazan:
  "select_by_num (kazan_db keep) (TextV (str ''101'')) = Inr [moscow_row]"
  by (simp add: select_by_num_def where_title_text joined_def to_mapping_def kazan_db_def
      moscow_db_def moscow_row_def)

lemma rows_kazan:
  "group_rows_of (kazan_db keep) = [\<lparr>group_id = 1, group_title = str ''101''\<rparr>]"
  "train_rows_of (kazan_db keep) =
     [\<lparr>train_id = 1, train_punkt = str ''Moscow'', train_nomer = 1,
       train_time = str ''14:30''\<rparr>]"
  by (simp_all add: kazan_db_def moscow_db_def)

lemma main_select_101:
  "main keep cwd select_101 [default_db cwd \<mapsto> kazan_db keep] =
     (Inr (), display_trains [moscow_row], [default_db cwd \<mapsto> kazan_db keep])"
  by (simp add: main_def parse_select_101 getattr_def connect_def create_db_kazan
      dispatch_def str_neq select_by_num_kazan)

lemma session_scenario:
  "session keep cwd Map.empty [add_moscow] = [default_db cwd \<mapsto> moscow_db]"
  "session keep cwd Map.empty [add_moscow, display] = [default_db cwd \<mapsto> moscow_db]"
  "session keep cwd Map.empty [add_moscow, display, add_kazan] =
     [default_db cwd \<mapsto> kazan_db keep]"
  by (simp_all add: main_add_moscow main_display_moscow main_add_kazan)

text \<open>
  C3, evaluated. On a new file \<open>add\<close> of Moscow succeeds and \<open>display\<close> prints the
  table with the one row. The \<open>add\<close> of Kazan with the same train number ends with a
  foreign-key violation, and \<open>select -s 101\<close> then prints the same table with the one
  Moscow row, not two rows; the file holds one group row and one train row.
\<close>

theorem scenario_select_prints_one_row:
  "main keep cwd add_moscow Map.empty =
     (Inr (), [], session keep cwd Map.empty [add_moscow]) \<and>
   fst (snd (main keep cwd display (session keep cwd Map.empty [add_moscow]))) =
     [line, header, line,
      str ''|    1 | Moscow                         | 101                  |  14:30               |'',
      line] \<and>
   fst (main keep cwd add_kazan (session keep cwd Map.empty [add_moscow, display])) =
     Inl ForeignKeyViolation \<and>
   main keep cwd select_101 (session keep cwd Map.empty [add_moscow, display, add_kazan]) =
     (Inr (),
      [line, header, line,
       str ''|    1 | Moscow                         | 101                  |  14:30               |'',
       line],
      session keep cwd Map.empty [add_moscow, display, add_kazan]) \<and>
   map_option group_rows_of
     (session keep cwd Map.empty [add_moscow, display, add_kazan] (default_db cwd)) =
     Some [\<lparr>group_id = 1, group_title = str ''101''\<rparr>] \<and>
   map_option train_rows_of
     (session keep cwd Map.empty [add_moscow, display, add_kazan] (default_db cwd)) =
     Some [\<lparr>train_id = 1, train_punkt = str ''Moscow'', train_nomer = 1,
            train_time = str ''14:30''\<rparr>]"
  by (simp add: session_scenario main_add_moscow main_display_moscow main_add_kazan
      main_select_101 display_moscow rows_kazan)

end
